theory Spec2Isabelle
  imports Main "HOL-Library.Char_ord" "HOL-Library.List_Lexorder"
begin

section \<open>SQL values and text functions\<close>

text \<open>
  The program is one Python block, \<^verbatim>\<open>with engine.begin() as conn:\<close>, that sends SQL
  statements to PostgreSQL. The embedding below follows the statements one by one: every
  common table expression of the validation query and of the insert query is a list
  comprehension over the rows it selects from, and every statement is a function on the
  store.

  A column value is held in its text form; SQL NULL is \<open>None\<close>. A SQL truth value is a
  \<open>bool option\<close> (\<open>None\<close> is unknown), and a WHERE clause keeps a row only where its
  condition is \<open>Some True\<close>. A text is a list of characters, and the width of a column
  counts them.
\<close>

type_synonym sqlval = "string option"
type_synonym sqlbool = "bool option"

definition sql_and :: "sqlbool \<Rightarrow> sqlbool \<Rightarrow> sqlbool" where
  "sql_and a b =
     (if a = Some False \<or> b = Some False then Some False
      else if a = Some True \<and> b = Some True then Some True
      else None)"

definition sql_or :: "sqlbool \<Rightarrow> sqlbool \<Rightarrow> sqlbool" where
  "sql_or a b =
     (if a = Some True \<or> b = Some True then Some True
      else if a = Some False \<and> b = Some False then Some False
      else None)"

definition sql_neq :: "sqlval \<Rightarrow> sqlval \<Rightarrow> sqlbool" where
  "sql_neq a b = (case (a, b) of (Some x, Some y) \<Rightarrow> Some (x \<noteq> y) | _ \<Rightarrow> None)"

definition sql_where :: "sqlbool \<Rightarrow> bool" where
  "sql_where b = (b = Some True)"

text \<open>The operator \<^verbatim>\<open>||\<close>: NULL when either operand is NULL.\<close>

definition sql_cat :: "sqlval \<Rightarrow> sqlval \<Rightarrow> sqlval" where
  "sql_cat a b = (case (a, b) of (Some x, Some y) \<Rightarrow> Some (x @ y) | _ \<Rightarrow> None)"

text \<open>LOWER, on the ASCII letters.\<close>

definition lower_char :: "char \<Rightarrow> char" where
  "lower_char c =
     (case map_of (zip ''ABCDEFGHIJKLMNOPQRSTUVWXYZ'' ''abcdefghijklmnopqrstuvwxyz'') c of
        Some l \<Rightarrow> l
      | None \<Rightarrow> c)"

definition sql_lower :: "string \<Rightarrow> string" where
  "sql_lower s = map lower_char s"

text \<open>\<^verbatim>\<open>s ILIKE '%pat%'\<close> for a pattern with no wildcard of its own.\<close>

fun contains :: "string \<Rightarrow> string \<Rightarrow> bool" where
  "contains pat [] = (pat = [])"
| "contains pat (c # cs) = (take (length pat) (c # cs) = pat \<or> contains pat cs)"

definition ilike_anywhere :: "string \<Rightarrow> string \<Rightarrow> bool" where
  "ilike_anywhere s pat = contains (sql_lower pat) (sql_lower s)"

text \<open>\<^verbatim>\<open>STRING_AGG(x, sep)\<close> over the values in the given order.\<close>

fun string_agg :: "string list \<Rightarrow> string \<Rightarrow> string" where
  "string_agg [] sep = []"
| "string_agg [x] sep = x"
| "string_agg (x # y # ys) sep = x @ sep @ string_agg (y # ys) sep"

text \<open>The text form of a cardinal number of the information schema.\<close>

definition digit_char :: "nat \<Rightarrow> char" where
  "digit_char d = ''0123456789'' ! (d mod 10)"

function show_nat :: "nat \<Rightarrow> string" where
  "show_nat n = (if n < 10 then [digit_char n] else show_nat (n div 10) @ [digit_char n])"
  by pat_completeness auto
termination
  by (relation "measure id") auto

section \<open>The information schema and the source tables\<close>

text \<open>
  The rows of the four views the validation query reads, with the columns it uses.
  \<open>is_nullable\<close> is the text \<^verbatim>\<open>YES\<close> or \<^verbatim>\<open>NO\<close>, as the view has it.
\<close>

record tables_row =
  t_table_schema :: string
  t_table_name :: string

record columns_row =
  c_table_schema :: string
  c_table_name :: string
  c_column_name :: string
  c_data_type :: string
  c_numeric_precision :: "nat option"
  c_numeric_scale :: "nat option"
  c_is_nullable :: string

record table_constraints_row =
  tc_table_schema :: string
  tc_table_name :: string
  tc_constraint_name :: string
  tc_constraint_type :: string

record key_column_usage_row =
  kcu_constraint_name :: string
  kcu_table_name :: string
  kcu_column_name :: string

record information_schema =
  is_tables :: "tables_row list"
  is_columns :: "columns_row list"
  is_table_constraints :: "table_constraints_row list"
  is_key_column_usage :: "key_column_usage_row list"

definition schema :: string where
  "schema = ''berlin_source_data''"

section \<open>Step 1: the validation query\<close>

definition all_tables :: "information_schema \<Rightarrow> string list" where
  "all_tables cat =
     [t_table_name t. t \<leftarrow> is_tables cat,
        t_table_schema t = schema,
        \<not> ilike_anywhere (t_table_name t) ''districts'',
        \<not> ilike_anywhere (t_table_name t) ''neighborhoods'']"

record expected =
  e_column_name :: string
  e_expected_type :: string
  e_expected_length :: sqlval
  e_constraint_type :: sqlval
  e_is_nullable :: string

definition expected_schema :: "expected list" where
  "expected_schema =
     [\<lparr>e_column_name = ''id'', e_expected_type = ''character varying'',
        e_expected_length = None, e_constraint_type = Some ''PRIMARY KEY'', e_is_nullable = ''NO''\<rparr>,
      \<lparr>e_column_name = ''district_id'', e_expected_type = ''character varying'',
        e_expected_length = None, e_constraint_type = Some ''FOREIGN KEY'', e_is_nullable = ''NO''\<rparr>,
      \<lparr>e_column_name = ''name'', e_expected_type = ''character varying'',
        e_expected_length = None, e_constraint_type = None, e_is_nullable = ''YES''\<rparr>,
      \<lparr>e_column_name = ''latitude'', e_expected_type = ''numeric'',
        e_expected_length = None, e_constraint_type = None, e_is_nullable = ''YES''\<rparr>,
      \<lparr>e_column_name = ''longitude'', e_expected_type = ''numeric'',
        e_expected_length = None, e_constraint_type = None, e_is_nullable = ''YES''\<rparr>,
      \<lparr>e_column_name = ''neighborhood'', e_expected_type = ''character varying'',
        e_expected_length = None, e_constraint_type = None, e_is_nullable = ''YES''\<rparr>,
      \<lparr>e_column_name = ''district'', e_expected_type = ''character varying'',
        e_expected_length = None, e_constraint_type = None, e_is_nullable = ''YES''\<rparr>,
      \<lparr>e_column_name = ''neighborhood_id'', e_expected_type = ''character varying'',
        e_expected_length = None, e_constraint_type = None, e_is_nullable = ''YES''\<rparr>]"

definition req_cols :: "string list" where
  "req_cols =
     [''id'', ''name'', ''district_id'', ''district'', ''latitude'', ''longitude'',
      ''neighborhood_id'', ''neighborhood'', ''geometry'']"

text \<open>
  The rows of \<^verbatim>\<open>all_tables CROSS JOIN req_cols LEFT JOIN information_schema.columns\<close>
  that pass \<^verbatim>\<open>WHERE c.column_name IS NULL\<close>: the pairs of a table and a required
  column for which the join finds no column.
\<close>

definition missing_join :: "information_schema \<Rightarrow> (string \<times> string) list" where
  "missing_join cat =
     [(tn, col). tn \<leftarrow> all_tables cat, col \<leftarrow> req_cols,
        [c \<leftarrow> is_columns cat.
           tn = c_table_name c \<and> c_table_schema c = schema \<and> sql_lower (c_column_name c) = col] = []]"

text \<open>
  \<^verbatim>\<open>GROUP BY tc.table_name\<close> with \<^verbatim>\<open>STRING_AGG(DISTINCT col, ', ' ORDER BY col)\<close>;
  a group has at least one row, so \<^verbatim>\<open>HAVING COUNT(*) > 0\<close> keeps every group.
\<close>

definition missing_columns :: "information_schema \<Rightarrow> (string \<times> string) list" where
  "missing_columns cat =
     [(tn, string_agg (sort (remdups [col. (tn', col) \<leftarrow> missing_join cat, tn' = tn])) '', '').
        tn \<leftarrow> remdups (map fst (missing_join cat))]"

definition datatype_issues :: "information_schema \<Rightarrow> (string \<times> string) list" where
  "datatype_issues cat =
     [(c_table_name c,
       ''Expected data type '' @ e_expected_type e @ '', got '' @ c_data_type c).
        c \<leftarrow> is_columns cat, e \<leftarrow> expected_schema,
        sql_lower (c_column_name c) = e_column_name e,
        c_table_schema c = schema,
        sql_where
          (sql_or (Some (c_data_type c \<noteq> e_expected_type e))
             (sql_and (Some (c_data_type c = ''numeric''))
                (sql_neq
                   (sql_cat (sql_cat (map_option show_nat (c_numeric_precision c)) (Some '',''))
                      (map_option show_nat (c_numeric_scale c)))
                   (e_expected_length e))))]"

definition null_issues :: "information_schema \<Rightarrow> (string \<times> string) list" where
  "null_issues cat =
     [(c_table_name c, ''Column '' @ c_column_name c @ '' allows NULL, expected NOT NULL'').
        c \<leftarrow> is_columns cat, e \<leftarrow> expected_schema,
        sql_lower (c_column_name c) = e_column_name e,
        c_table_schema c = schema,
        e_is_nullable e = ''NO'',
        c_is_nullable c = ''YES'']"

definition pk_issues :: "information_schema \<Rightarrow> (string \<times> string) list" where
  "pk_issues cat =
     [(t, ''Missing PRIMARY KEY on id column''). t \<leftarrow> all_tables cat,
        [(). tc \<leftarrow> is_table_constraints cat, kcu \<leftarrow> is_key_column_usage cat,
           kcu_constraint_name kcu = tc_constraint_name tc,
           kcu_table_name kcu = tc_table_name tc,
           tc_table_schema tc = schema,
           tc_table_name tc = t,
           tc_constraint_type tc = ''PRIMARY KEY'',
           sql_lower (kcu_column_name kcu) = ''id''] = []]"

definition fk_issues :: "information_schema \<Rightarrow> (string \<times> string) list" where
  "fk_issues cat =
     [(t, ''Missing or incorrect foreign key on district_id''). t \<leftarrow> all_tables cat,
        [(). tc \<leftarrow> is_table_constraints cat,
           tc_table_schema tc = schema,
           tc_table_name tc = t,
           tc_constraint_type tc = ''FOREIGN KEY''] = []]"

definition invalid_tables :: "information_schema \<Rightarrow> (string \<times> string) list" where
  "invalid_tables cat =
     [(tn, ''Missing columns: '' @ missing_cols). (tn, missing_cols) \<leftarrow> missing_columns cat]
     @ datatype_issues cat
     @ null_issues cat
     @ pk_issues cat
     @ fk_issues cat"

section \<open>The store\<close>

text \<open>
  JSONB values: an object is the list of its members. The geometry type \<open>'g\<close>, the
  distance type \<open>'d\<close> and the PostGIS functions the queries call are parameters: a
  \<open>postgis\<close> record holds them. \<open>ST_GeomFromEWKT\<close> returns \<open>None\<close> where PostGIS
  raises a parse error. The operator \<^verbatim>\<open><->\<close> of the ORDER BY clause is the same 2D
  distance as \<open>ST_Distance\<close>.
\<close>

datatype 'd json = JNull | JString string | JNumber 'd | JObject "(string \<times> 'd json) list"

record ('g, 'd) postgis =
  ST_GeomFromEWKT :: "string \<Rightarrow> 'g option"
  ST_SetSRID :: "'g \<Rightarrow> int \<Rightarrow> 'g"
  ST_Distance :: "'g \<Rightarrow> 'g \<Rightarrow> 'd"

text \<open>A row of \<^verbatim>\<open>all_pois\<close>, and a row of \<^verbatim>\<open>unified_pois\<close>.\<close>

record ('g, 'd) poi_row =
  poi_id :: string
  name :: sqlval
  layer :: string
  district_id :: sqlval
  district :: sqlval
  neighborhood_id :: sqlval
  neighborhood :: sqlval
  latitude :: sqlval
  longitude :: sqlval
  geometry :: "'g option"
  attributes :: "'d json"

record ('g, 'd) unified_row = "('g, 'd) poi_row" +
  nearest_pois :: "'d json option"

record excluded_row =
  x_table_name :: string
  x_reason :: string
  exclusion_date :: nat

record processed_row =
  p_table_name :: string
  processed_date :: nat

text \<open>
  The store: the information schema and the rows of the tables of \<^verbatim>\<open>berlin_source_data\<close>
  (each row the values of the table's columns, in the order of \<open>is_columns\<close>), which a
  run only reads, and the three tables of \<^verbatim>\<open>public\<close> with the spatial index, which
  it writes. A table that does not exist is \<open>None\<close>.
\<close>

record ('g, 'd) store =
  catalog :: information_schema
  berlin_source_data :: "string \<Rightarrow> sqlval list list"
  excluded_tables_log :: "excluded_row list option"
  unified_pois :: "('g, 'd) unified_row list option"
  processed_tables_log :: "processed_row list option"
  idx_poi_geom :: bool

datatype error =
    NameError | UndefinedTable | UndefinedColumn | InvalidGeometry | UniqueViolation
  | StringDataRightTruncation | NumericValueOutOfRange | InvalidTextRepresentation

definition bind_err :: "error + 'a \<Rightarrow> ('a \<Rightarrow> error + 'b) \<Rightarrow> error + 'b" where
  "bind_err m f = (case m of Inl e \<Rightarrow> Inl e | Inr v \<Rightarrow> f v)"

fun collect :: "(error + 'a) list \<Rightarrow> error + 'a list" where
  "collect [] = Inr []"
| "collect (x # xs) =
     (case x of
        Inl e \<Rightarrow> Inl e
      | Inr v \<Rightarrow> (case collect xs of Inl e \<Rightarrow> Inl e | Inr vs \<Rightarrow> Inr (v # vs)))"

section \<open>Steps 1 and 2: the exclusion log, the canonical table and the ledger\<close>

text \<open>
  The exclusion log declares \<^verbatim>\<open>table_name VARCHAR(255)\<close> and \<^verbatim>\<open>reason VARCHAR(500)\<close>,
  the ledger \<^verbatim>\<open>table_name VARCHAR(255)\<close>. What the run stores there is the name of a
  table, or a fixed text with the name of a column, the names of two types or some of the
  nine required names; PostgreSQL keeps an identifier to 63 characters, so none of these
  values reaches the width of its column and each is stored as it is.
\<close>

definition validation_query :: "nat \<Rightarrow> ('g, 'd) store \<Rightarrow> ('g, 'd) store" where
  "validation_query now s =
     s\<lparr>excluded_tables_log :=
         Some [\<lparr>x_table_name = tn, x_reason = r, exclusion_date = now\<rparr>.
                 (tn, r) \<leftarrow> invalid_tables (catalog s)]\<rparr>"

definition drop_tables :: "('g, 'd) store \<Rightarrow> ('g, 'd) store" where
  "drop_tables s = s\<lparr>unified_pois := None, idx_poi_geom := False, processed_tables_log := None\<rparr>"

definition create_tables :: "('g, 'd) store \<Rightarrow> ('g, 'd) store" where
  "create_tables s =
     s\<lparr>unified_pois := (case unified_pois s of None \<Rightarrow> Some [] | Some rows \<Rightarrow> Some rows),
       processed_tables_log :=
         (case processed_tables_log s of None \<Rightarrow> Some [] | Some rows \<Rightarrow> Some rows)\<rparr>"

section \<open>Step 3: the tables to process\<close>

definition allow_list :: "string list" where
  "allow_list = [''galleries'', ''food_markets'', ''long_term_listings'', ''banks'', ''malls'']"

definition valid_tables_sql :: "('g, 'd) store \<Rightarrow> error + string list" where
  "valid_tables_sql s =
     (case excluded_tables_log s of
        None \<Rightarrow> Inl UndefinedTable
      | Some log \<Rightarrow>
          Inr [t_table_name t. t \<leftarrow> is_tables (catalog s),
                 t_table_schema t = schema,
                 \<not> ilike_anywhere (t_table_name t) ''districts'',
                 \<not> ilike_anywhere (t_table_name t) ''neighborhoods'',
                 t_table_name t \<notin> set (map x_table_name log),
                 t_table_name t \<in> set allow_list])"

section \<open>Step 4: the insert query\<close>

definition table_columns :: "information_schema \<Rightarrow> string \<Rightarrow> string list" where
  "table_columns cat tn =
     [c_column_name c. c \<leftarrow> is_columns cat, c_table_schema c = schema, c_table_name c = tn]"

definition field :: "string list \<Rightarrow> sqlval list \<Rightarrow> string \<Rightarrow> sqlval" where
  "field cols r k = (case map_of (zip cols r) k of Some v \<Rightarrow> v | None \<Rightarrow> None)"

definition to_jsonb :: "string list \<Rightarrow> sqlval list \<Rightarrow> 'd json" where
  "to_jsonb cols r =
     JObject (zip cols (map (\<lambda>v. case v of None \<Rightarrow> JNull | Some x \<Rightarrow> JString x) r))"

text \<open>\<^verbatim>\<open>jsonb - key\<close>: the object without the member of that name.\<close>

fun jsonb_minus :: "'d json \<Rightarrow> string \<Rightarrow> 'd json" where
  "jsonb_minus (JObject kvs) k = JObject [kv \<leftarrow> kvs. fst kv \<noteq> k]"
| "jsonb_minus j k = j"

text \<open>
  \<^verbatim>\<open>jsonb ->> key\<close>: the member as text, NULL when it is absent or JSON null. The
  attributes hold texts only.
\<close>

fun jsonb_text :: "'d json \<Rightarrow> string \<Rightarrow> sqlval" where
  "jsonb_text (JObject kvs) k = (case map_of kvs k of Some (JString x) \<Rightarrow> Some x | _ \<Rightarrow> None)"
| "jsonb_text j k = None"

definition text_json :: "sqlval \<Rightarrow> 'd json" where
  "text_json v = (case v of None \<Rightarrow> JNull | Some x \<Rightarrow> JString x)"

text \<open>\<^verbatim>\<open>CONCAT\<close> reads a NULL argument as the empty text.\<close>

definition concat_poi_id :: "string \<Rightarrow> sqlval \<Rightarrow> string" where
  "concat_poi_id table v = take 4 table @ ''-'' @ (case v of None \<Rightarrow> [] | Some x \<Rightarrow> x)"

definition geometry_of :: "('g, 'd) postgis \<Rightarrow> sqlval \<Rightarrow> error + 'g option" where
  "geometry_of gis v =
     (case v of
        None \<Rightarrow> Inr None
      | Some w \<Rightarrow>
          (case ST_GeomFromEWKT gis w of
             None \<Rightarrow> Inl InvalidGeometry
           | Some g \<Rightarrow> Inr (Some (ST_SetSRID gis g 4326))))"

definition select_row ::
  "('g, 'd) postgis \<Rightarrow> string \<Rightarrow> string list \<Rightarrow> sqlval list \<Rightarrow> error + ('g, 'd) poi_row" where
  "select_row gis table cols r =
     bind_err (geometry_of gis (field cols r ''geometry'')) (\<lambda>g.
       Inr \<lparr>poi_id = concat_poi_id table (field cols r ''id''),
            name = field cols r ''name'',
            layer = table,
            district_id = field cols r ''district_id'',
            district = field cols r ''district'',
            neighborhood_id = field cols r ''neighborhood_id'',
            neighborhood = field cols r ''neighborhood'',
            latitude = field cols r ''latitude'',
            longitude = field cols r ''longitude'',
            geometry = g,
            attributes =
              jsonb_minus (jsonb_minus (jsonb_minus (jsonb_minus (jsonb_minus (jsonb_minus
                (jsonb_minus (to_jsonb cols r) ''id'') ''name'') ''district_id'')
                ''neighborhood_id'') ''latitude'') ''longitude'') ''geometry''\<rparr>)"

definition selected_columns :: "string list" where
  "selected_columns =
     [''id'', ''name'', ''district_id'', ''district'', ''neighborhood_id'', ''neighborhood'',
      ''latitude'', ''longitude'', ''geometry'']"

text \<open>One SELECT of the union: it fails where the table has no column of a selected name.\<close>

definition union_query ::
  "('g, 'd) postgis \<Rightarrow> ('g, 'd) store \<Rightarrow> string \<Rightarrow> error + ('g, 'd) poi_row list" where
  "union_query gis s table =
     (let cols = table_columns (catalog s) table in
      if \<not> set selected_columns \<subseteq> set cols then Inl UndefinedColumn
      else collect (map (select_row gis table cols) (berlin_source_data s table)))"

definition all_pois ::
  "('g, 'd) postgis \<Rightarrow> ('g, 'd) store \<Rightarrow> string list \<Rightarrow> error + ('g, 'd) poi_row list" where
  "all_pois gis s new_tables =
     bind_err (collect (map (union_query gis s) new_tables)) (\<lambda>parts. Inr (concat parts))"

definition unique_layers :: "('g, 'd) poi_row list \<Rightarrow> string list" where
  "unique_layers aps = remdups [layer p. p \<leftarrow> aps, layer p \<noteq> ''long_term_listings'']"

definition sql_distance :: "('g, 'd) postgis \<Rightarrow> 'g option \<Rightarrow> 'g option \<Rightarrow> 'd option" where
  "sql_distance gis a b =
     (case (a, b) of (Some x, Some y) \<Rightarrow> Some (ST_Distance gis x y) | _ \<Rightarrow> None)"

text \<open>Ascending order puts NULL last.\<close>

fun nulls_last_le :: "'d::linorder option \<Rightarrow> 'd option \<Rightarrow> bool" where
  "nulls_last_le a None = True"
| "nulls_last_le None (Some b) = False"
| "nulls_last_le (Some a) (Some b) = (a \<le> b)"

text \<open>
  \<^verbatim>\<open>ORDER BY key LIMIT 1\<close>: a row of least key. The query names no second sort key;
  among rows of equal key the model returns the first in the order the rows are read.
\<close>

fun order_by_limit_1 :: "('a \<Rightarrow> 'd::linorder option) \<Rightarrow> 'a list \<Rightarrow> 'a option" where
  "order_by_limit_1 key [] = None"
| "order_by_limit_1 key (x # xs) =
     (case order_by_limit_1 key xs of
        None \<Rightarrow> Some x
      | Some y \<Rightarrow> if nulls_last_le (key x) (key y) then Some x else Some y)"

definition nearest_row ::
  "('g, 'd::linorder) postgis \<Rightarrow> ('g, 'd) poi_row list \<Rightarrow> ('g, 'd) poi_row \<Rightarrow> string
     \<Rightarrow> ('g, 'd) poi_row option" where
  "nearest_row gis aps ap ul =
     order_by_limit_1 (\<lambda>p. sql_distance gis (geometry ap) (geometry p)) [p \<leftarrow> aps. layer p = ul]"

definition jsonb_build_object ::
  "('g, 'd) postgis \<Rightarrow> ('g, 'd) poi_row \<Rightarrow> ('g, 'd) poi_row \<Rightarrow> 'd json" where
  "jsonb_build_object gis ap p =
     JObject
       [(''id'', JString (poi_id p)),
        (''name'', text_json (name p)),
        (''distance'',
           (case sql_distance gis (geometry ap) (geometry p) of
              None \<Rightarrow> JNull
            | Some d \<Rightarrow> JNumber d)),
        (''address'',
           JObject
             [(''street'', text_json (jsonb_text (attributes p) ''street'')),
              (''housenumber'', text_json (jsonb_text (attributes p) ''housenumber''))])]"

definition nearestinfo ::
  "('g, 'd::linorder) postgis \<Rightarrow> ('g, 'd) poi_row list \<Rightarrow> ('g, 'd) poi_row \<Rightarrow> string \<Rightarrow> 'd json" where
  "nearestinfo gis aps ap ul =
     (case nearest_row gis aps ap ul of
        None \<Rightarrow> JNull
      | Some p \<Rightarrow> jsonb_build_object gis ap p)"

definition layer_nearest ::
  "('g, 'd::linorder) postgis \<Rightarrow> ('g, 'd) poi_row list \<Rightarrow> ('g, 'd) poi_row
     \<Rightarrow> (string \<times> 'd json) list" where
  "layer_nearest gis aps ap =
     [(ul, nearestinfo gis aps ap ul). ul \<leftarrow> unique_layers aps,
        layer ap = ''long_term_listings'' \<and> ul \<noteq> ''long_term_listings'']"

text \<open>\<^verbatim>\<open>jsonb_object_agg\<close> over no row is NULL.\<close>

definition jsonb_object_agg :: "(string \<times> 'd json) list \<Rightarrow> 'd json option" where
  "jsonb_object_agg kvs = (if kvs = [] then None else Some (JObject kvs))"

definition pois_with_nearest ::
  "('g, 'd::linorder) postgis \<Rightarrow> ('g, 'd) poi_row list \<Rightarrow> ('g, 'd) unified_row list" where
  "pois_with_nearest gis aps =
     [\<lparr>poi_id = poi_id ap, name = name ap, layer = layer ap,
        district_id = district_id ap, district = district ap,
        neighborhood_id = neighborhood_id ap, neighborhood = neighborhood ap,
        latitude = latitude ap, longitude = longitude ap,
        geometry = geometry ap, attributes = attributes ap,
        nearest_pois = jsonb_object_agg (layer_nearest gis aps ap)\<rparr>. ap \<leftarrow> aps]"

text \<open>
  Storing a text into a column declared \<^verbatim>\<open>VARCHAR(n)\<close>: a text of at most \<open>n\<close>
  characters is stored as it is; a longer one is cut to \<open>n\<close> characters when all the
  characters beyond are spaces, and raises otherwise. NULL is stored as NULL.
\<close>

definition assign_varchar :: "nat \<Rightarrow> string \<Rightarrow> error + string" where
  "assign_varchar n x =
     (if length x \<le> n then Inr x
      else if set (drop n x) \<subseteq> {CHR '' ''} then Inr (take n x)
      else Inl StringDataRightTruncation)"

definition assign_varchar_null :: "nat \<Rightarrow> sqlval \<Rightarrow> error + sqlval" where
  "assign_varchar_null n v =
     (case v of None \<Rightarrow> Inr None | Some x \<Rightarrow> bind_err (assign_varchar n x) (\<lambda>y. Inr (Some y)))"

text \<open>
  The text form of a numeric value: an optional sign, digits, and optionally a point and
  more digits. It is read as a sign, the digits as one number, and the count of digits
  after the point.
\<close>

definition digit_value :: "char \<Rightarrow> int option" where
  "digit_value c =
     (let n = (of_char c :: int) in if 48 \<le> n \<and> n \<le> 57 then Some (n - 48) else None)"

fun digits_value :: "string \<Rightarrow> int \<Rightarrow> int option" where
  "digits_value [] acc = Some acc"
| "digits_value (c # cs) acc =
     (case digit_value c of None \<Rightarrow> None | Some d \<Rightarrow> digits_value cs (10 * acc + d))"

definition read_numeric :: "string \<Rightarrow> (bool \<times> int \<times> nat) option" where
  "read_numeric x =
     (let negative = (take 1 x = ''-'');
          body = (if negative then drop 1 x else x);
          whole = takeWhile (\<lambda>c. c \<noteq> CHR ''.'') body;
          fraction = drop 1 (dropWhile (\<lambda>c. c \<noteq> CHR ''.'') body)
      in if whole = [] then None
         else map_option (\<lambda>m. (negative, m, length fraction)) (digits_value (whole @ fraction) 0))"

text \<open>
  Storing a numeric value into a column declared \<^verbatim>\<open>DECIMAL(p,s)\<close>: the value is
  rounded to \<open>s\<close> digits after the point, a tie away from zero, and raises when the
  result needs more than \<open>p\<close> digits; the stored value has exactly \<open>s\<close> digits after
  the point. NaN is stored as it is, an infinity raises.
\<close>

function show_digits :: "int \<Rightarrow> string" where
  "show_digits n =
     (if n < 10 then [digit_char (nat n)]
      else show_digits (n div 10) @ [digit_char (nat (n mod 10))])"
  by pat_completeness auto
termination
  by (relation "measure nat") auto

definition show_decimal :: "nat \<Rightarrow> bool \<Rightarrow> int \<Rightarrow> string" where
  "show_decimal s negative r =
     (if negative \<and> 0 < r then ''-'' else [])
     @ show_digits (r div 10 ^ s)
     @ (if s = 0 then []
        else ''.'' @ replicate (s - length (show_digits (r mod 10 ^ s))) (CHR ''0'')
             @ show_digits (r mod 10 ^ s))"

definition assign_decimal :: "nat \<Rightarrow> nat \<Rightarrow> string \<Rightarrow> error + string" where
  "assign_decimal p s x =
     (if x = ''NaN'' then Inr x
      else if x = ''Infinity'' \<or> x = ''-Infinity'' then Inl NumericValueOutOfRange
      else case read_numeric x of
             None \<Rightarrow> Inl InvalidTextRepresentation
           | Some (negative, m, k) \<Rightarrow>
               (let r = (if k \<le> s then m * 10 ^ (s - k)
                         else (m + 5 * 10 ^ (k - s - 1)) div 10 ^ (k - s))
                in if 10 ^ p \<le> r then Inl NumericValueOutOfRange
                   else Inr (show_decimal s negative r)))"

definition assign_decimal_null :: "nat \<Rightarrow> nat \<Rightarrow> sqlval \<Rightarrow> error + sqlval" where
  "assign_decimal_null p s v =
     (case v of None \<Rightarrow> Inr None | Some x \<Rightarrow> bind_err (assign_decimal p s x) (\<lambda>y. Inr (Some y)))"

text \<open>
  A row as \<^verbatim>\<open>unified_pois\<close> stores it, by the declaration of the table:
  \<^verbatim>\<open>poi_id VARCHAR(50)\<close>, \<^verbatim>\<open>name VARCHAR(200)\<close>, \<^verbatim>\<open>layer VARCHAR(100)\<close>,
  \<^verbatim>\<open>district_id VARCHAR(20)\<close>, \<^verbatim>\<open>district VARCHAR(100)\<close>,
  \<^verbatim>\<open>neighborhood_id VARCHAR(20)\<close>, \<^verbatim>\<open>neighborhood VARCHAR(100)\<close>,
  \<^verbatim>\<open>latitude DECIMAL(9,6)\<close>, \<^verbatim>\<open>longitude DECIMAL(9,6)\<close>; the geometry and the two
  JSONB columns have no width.
\<close>

definition assign_unified_pois :: "('g, 'd) unified_row \<Rightarrow> error + ('g, 'd) unified_row" where
  "assign_unified_pois u =
     bind_err (assign_varchar 50 (poi_id u)) (\<lambda>v_poi_id.
     bind_err (assign_varchar_null 200 (name u)) (\<lambda>v_name.
     bind_err (assign_varchar 100 (layer u)) (\<lambda>v_layer.
     bind_err (assign_varchar_null 20 (district_id u)) (\<lambda>v_district_id.
     bind_err (assign_varchar_null 100 (district u)) (\<lambda>v_district.
     bind_err (assign_varchar_null 20 (neighborhood_id u)) (\<lambda>v_neighborhood_id.
     bind_err (assign_varchar_null 100 (neighborhood u)) (\<lambda>v_neighborhood.
     bind_err (assign_decimal_null 9 6 (latitude u)) (\<lambda>v_latitude.
     bind_err (assign_decimal_null 9 6 (longitude u)) (\<lambda>v_longitude.
       Inr \<lparr>poi_id = v_poi_id, name = v_name, layer = v_layer,
            district_id = v_district_id, district = v_district,
            neighborhood_id = v_neighborhood_id, neighborhood = v_neighborhood,
            latitude = v_latitude, longitude = v_longitude,
            geometry = geometry u, attributes = attributes u,
            nearest_pois = nearest_pois u\<rparr>)))))))))"

text \<open>
  \<^verbatim>\<open>INSERT INTO unified_pois\<close>: every selected row is stored by the declaration of the
  table, and \<open>poi_id\<close>, as stored, is the primary key.
\<close>

definition insert_unified_pois ::
  "('g, 'd) unified_row list \<Rightarrow> ('g, 'd) store \<Rightarrow> error + ('g, 'd) store" where
  "insert_unified_pois rows s =
     (case unified_pois s of
        None \<Rightarrow> Inl UndefinedTable
      | Some old \<Rightarrow>
          bind_err (collect (map assign_unified_pois rows)) (\<lambda>new.
            if distinct (map poi_id (old @ new)) then Inr (s\<lparr>unified_pois := Some (old @ new)\<rparr>)
            else Inl UniqueViolation))"

definition insert_sql ::
  "('g, 'd::linorder) postgis \<Rightarrow> string list \<Rightarrow> ('g, 'd) store \<Rightarrow> error + ('g, 'd) store" where
  "insert_sql gis new_tables s =
     bind_err (all_pois gis s new_tables) (\<lambda>aps.
       insert_unified_pois (pois_with_nearest gis aps) s)"

text \<open>The ledger: \<^verbatim>\<open>INSERT ... ON CONFLICT DO NOTHING\<close>, once for each table.\<close>

definition insert_processed :: "nat \<Rightarrow> string \<Rightarrow> ('g, 'd) store \<Rightarrow> error + ('g, 'd) store" where
  "insert_processed now table s =
     (case processed_tables_log s of
        None \<Rightarrow> Inl UndefinedTable
      | Some rows \<Rightarrow>
          if table \<in> set (map p_table_name rows) then Inr s
          else Inr (s\<lparr>processed_tables_log :=
                       Some (rows @ [\<lparr>p_table_name = table, processed_date = now\<rparr>])\<rparr>))"

fun insert_processed_all ::
  "nat \<Rightarrow> string list \<Rightarrow> ('g, 'd) store \<Rightarrow> error + ('g, 'd) store" where
  "insert_processed_all now [] s = Inr s"
| "insert_processed_all now (table # tables) s =
     bind_err (insert_processed now table s) (insert_processed_all now tables)"

section \<open>Step 5 and the whole run\<close>

definition create_index :: "('g, 'd) store \<Rightarrow> error + ('g, 'd) store" where
  "create_index s =
     (case unified_pois s of
        None \<Rightarrow> Inl UndefinedTable
      | Some rows \<Rightarrow> Inr (s\<lparr>idx_poi_geom := True\<rparr>))"

text \<open>
  The statements of the block, in order. \<open>insert_sql\<close> is bound only inside
  \<^verbatim>\<open>if new_tables:\<close> and executed after it, so an empty list of tables raises NameError.
\<close>

definition statements ::
  "('g, 'd::linorder) postgis \<Rightarrow> nat \<Rightarrow> ('g, 'd) store \<Rightarrow> error + ('g, 'd) store" where
  "statements gis now s =
     (let s1 = validation_query now s;
          s2 = drop_tables s1;
          s3 = create_tables s2
      in bind_err (valid_tables_sql s3) (\<lambda>new_tables.
           if new_tables = [] then Inl NameError
           else bind_err (insert_sql gis new_tables s3) (\<lambda>s4.
                  bind_err (insert_processed_all now new_tables s4) create_index)))"

text \<open>
  \<^verbatim>\<open>with engine.begin() as conn:\<close> commits when the block ends and rolls back when it
  raises: the store after a run, and the exception if there was one.
\<close>

definition engine_begin ::
  "(('g, 'd) store \<Rightarrow> error + ('g, 'd) store) \<Rightarrow> ('g, 'd) store \<Rightarrow> error option \<times> ('g, 'd) store" where
  "engine_begin block s = (case block s of Inl e \<Rightarrow> (Some e, s) | Inr s' \<Rightarrow> (None, s'))"

definition run ::
  "('g, 'd::linorder) postgis \<Rightarrow> nat \<Rightarrow> ('g, 'd) store \<Rightarrow> error option \<times> ('g, 'd) store" where
  "run gis now s = engine_begin (statements gis now) s"

section \<open>Notions of the specification\<close>

text \<open>
  Two names are the same but for the case of their ASCII letters; the code of a capital
  letter is that of the small one less 32.
\<close>

definition is_upper :: "char \<Rightarrow> bool" where
  "is_upper c = (65 \<le> (of_char c :: int) \<and> (of_char c :: int) \<le> 90)"

definition same_ignoring_case :: "string \<Rightarrow> string \<Rightarrow> bool" where
  "same_ignoring_case x y =
     list_all2
       (\<lambda>a b. a = b
          \<or> (is_upper a \<and> (of_char b :: int) = of_char a + 32)
          \<or> (is_upper b \<and> (of_char a :: int) = of_char b + 32)) x y"

text \<open>
  The required columns a table lacks: no column of the table, in the source schema, has
  the name, ignoring case.
\<close>

definition missing_names :: "information_schema \<Rightarrow> string \<Rightarrow> string set" where
  "missing_names cat tn =
     {col \<in> set req_cols.
        \<not> (\<exists>c \<in> set (is_columns cat).
             c_table_schema c = schema \<and> c_table_name c = tn
             \<and> same_ignoring_case (c_column_name c) col)}"

text \<open>The names of a list, each but the last followed by a comma and a space.\<close>

definition comma_joined :: "string list \<Rightarrow> string" where
  "comma_joined ns =
     (if ns = [] then [] else concat (map (\<lambda>n. n @ '', '') (butlast ns)) @ last ns)"

text \<open>
  The rows the insert query selects, as \<^verbatim>\<open>unified_pois\<close> stores them; and a text that
  \<^verbatim>\<open>VARCHAR(n)\<close> stores cut, without an error.
\<close>

definition stored_rows ::
  "('g, 'd::linorder) postgis \<Rightarrow> ('g, 'd) poi_row list \<Rightarrow> error + ('g, 'd) unified_row list" where
  "stored_rows gis aps = collect (map assign_unified_pois (pois_with_nearest gis aps))"

definition cut_by_varchar :: "nat \<Rightarrow> string \<Rightarrow> bool" where
  "cut_by_varchar n x = (n < length x \<and> set (drop n x) \<subseteq> {CHR '' ''})"

text \<open>
  The tables a run merges: those of the source schema that pass the two name filters, have
  no record in the exclusion log and are on the allow-list.
\<close>

definition eligible_from :: "information_schema \<Rightarrow> string list \<Rightarrow> string list" where
  "eligible_from cat excluded =
     [t_table_name t. t \<leftarrow> is_tables cat,
        t_table_schema t = schema,
        \<not> ilike_anywhere (t_table_name t) ''districts'',
        \<not> ilike_anywhere (t_table_name t) ''neighborhoods'',
        t_table_name t \<notin> set excluded,
        t_table_name t \<in> set allow_list]"

definition eligible_tables :: "information_schema \<Rightarrow> string list" where
  "eligible_tables cat = eligible_from cat (map fst (invalid_tables cat))"

text \<open>The rows the validation query inserts into \<open>excluded_tables_log\<close> at a given time.\<close>

definition exclusion_log :: "nat \<Rightarrow> information_schema \<Rightarrow> excluded_row list" where
  "exclusion_log now cat =
     [\<lparr>x_table_name = tn, x_reason = r, exclusion_date = now\<rparr>. (tn, r) \<leftarrow> invalid_tables cat]"

text \<open>The ledger's question: does it list the table?\<close>

definition is_processed :: "('g, 'd) store \<Rightarrow> string \<Rightarrow> bool" where
  "is_processed s tn =
     (case processed_tables_log s of
        None \<Rightarrow> False
      | Some rows \<Rightarrow> tn \<in> set (map p_table_name rows))"

text \<open>The rows of the ledger.\<close>

definition ledger :: "('g, 'd) store \<Rightarrow> processed_row list" where
  "ledger s = (case processed_tables_log s of None \<Rightarrow> [] | Some rows \<Rightarrow> rows)"

text \<open>
  The values of the \<open>id\<close> column of a source table. The column is unique when they are
  pairwise distinct and none is NULL (a table that passes \<open>null_issues\<close> declares the
  column NOT NULL).
\<close>

definition source_ids :: "('g, 'd) store \<Rightarrow> string \<Rightarrow> sqlval list" where
  "source_ids s t =
     map (\<lambda>r. field (table_columns (catalog s) t) r ''id'') (berlin_source_data s t)"

definition id_column_unique :: "('g, 'd) store \<Rightarrow> string \<Rightarrow> bool" where
  "id_column_unique s t = (distinct (source_ids s t) \<and> None \<notin> set (source_ids s t))"

text \<open>Reading a member of a JSON object, and the entry of a layer in \<open>nearest_pois\<close>.\<close>

fun json_get :: "'d json \<Rightarrow> string \<Rightarrow> 'd json option" where
  "json_get (JObject kvs) k = map_of kvs k"
| "json_get j k = None"

definition nearest_in :: "('g, 'd) unified_row list \<Rightarrow> string \<Rightarrow> string \<Rightarrow> 'd json option" where
  "nearest_in rows pid l =
     (case [u \<leftarrow> rows. poi_id u = pid] of
        [] \<Rightarrow> None
      | u # us \<Rightarrow> (case nearest_pois u of None \<Rightarrow> None | Some np \<Rightarrow> json_get np l))"

definition nearest_entry :: "('g, 'd) store \<Rightarrow> string \<Rightarrow> string \<Rightarrow> 'd json option" where
  "nearest_entry s pid l =
     (case unified_pois s of None \<Rightarrow> None | Some rows \<Rightarrow> nearest_in rows pid l)"

section \<open>Example stores\<close>

text \<open>
  A table with the nine required columns as the expected schema has them, a primary key on
  \<open>id\<close> and a foreign key on \<open>district_id\<close>, and its variants. Geometries are points
  of a line, held as integers.
\<close>

definition ex_col :: "string \<Rightarrow> string \<Rightarrow> string \<Rightarrow> string \<Rightarrow> columns_row" where
  "ex_col tn cn ty nullable =
     \<lparr>c_table_schema = schema, c_table_name = tn, c_column_name = cn, c_data_type = ty,
      c_numeric_precision = None, c_numeric_scale = None, c_is_nullable = nullable\<rparr>"

definition ex_num :: "string \<Rightarrow> string \<Rightarrow> nat \<Rightarrow> nat \<Rightarrow> columns_row" where
  "ex_num tn cn p sc =
     \<lparr>c_table_schema = schema, c_table_name = tn, c_column_name = cn, c_data_type = ''numeric'',
      c_numeric_precision = Some p, c_numeric_scale = Some sc, c_is_nullable = ''YES''\<rparr>"

definition ex_columns :: "string \<Rightarrow> columns_row list" where
  "ex_columns tn =
     [ex_col tn ''id'' ''character varying'' ''NO'',
      ex_col tn ''name'' ''character varying'' ''YES'',
      ex_col tn ''district_id'' ''character varying'' ''NO'',
      ex_col tn ''district'' ''character varying'' ''YES'',
      ex_col tn ''neighborhood_id'' ''character varying'' ''YES'',
      ex_col tn ''neighborhood'' ''character varying'' ''YES'',
      ex_num tn ''latitude'' 9 6,
      ex_num tn ''longitude'' 9 6,
      ex_col tn ''geometry'' ''text'' ''YES'',
      ex_col tn ''street'' ''character varying'' ''YES'']"

definition ex_constraints :: "string \<Rightarrow> string \<Rightarrow> table_constraints_row list" where
  "ex_constraints tn fk_column =
     [\<lparr>tc_table_schema = schema, tc_table_name = tn, tc_constraint_name = tn @ ''_pkey'',
        tc_constraint_type = ''PRIMARY KEY''\<rparr>,
      \<lparr>tc_table_schema = schema, tc_table_name = tn,
        tc_constraint_name = tn @ ''_'' @ fk_column @ ''_fkey'',
        tc_constraint_type = ''FOREIGN KEY''\<rparr>]"

definition ex_key_columns :: "string \<Rightarrow> string \<Rightarrow> key_column_usage_row list" where
  "ex_key_columns tn fk_column =
     [\<lparr>kcu_constraint_name = tn @ ''_pkey'', kcu_table_name = tn, kcu_column_name = ''id''\<rparr>,
      \<lparr>kcu_constraint_name = tn @ ''_'' @ fk_column @ ''_fkey'', kcu_table_name = tn,
        kcu_column_name = fk_column\<rparr>]"

definition ex_tables :: "string list \<Rightarrow> tables_row list" where
  "ex_tables tns = [\<lparr>t_table_schema = schema, t_table_name = tn\<rparr>. tn \<leftarrow> tns]"

text \<open>One valid table, \<open>banks\<close>.\<close>

definition ex_bank_catalog :: information_schema where
  "ex_bank_catalog =
     \<lparr>is_tables = ex_tables [''banks''],
      is_columns = ex_columns ''banks'',
      is_table_constraints = ex_constraints ''banks'' ''district_id'',
      is_key_column_usage = ex_key_columns ''banks'' ''district_id''\<rparr>"

text \<open>
  \<open>banks\<close> without the columns \<open>name\<close>, \<open>latitude\<close> and \<open>geometry\<close>, and with
  the column \<open>id\<close> written in capitals.
\<close>

definition ex_missing_catalog :: information_schema where
  "ex_missing_catalog =
     ex_bank_catalog\<lparr>is_columns :=
       [ex_col ''banks'' ''ID'' ''character varying'' ''NO'',
        ex_col ''banks'' ''district_id'' ''character varying'' ''NO'',
        ex_col ''banks'' ''district'' ''character varying'' ''YES'',
        ex_col ''banks'' ''neighborhood_id'' ''character varying'' ''YES'',
        ex_col ''banks'' ''neighborhood'' ''character varying'' ''YES'',
        ex_num ''banks'' ''longitude'' 9 6]\<rparr>"

text \<open>\<open>banks\<close> with \<open>latitude\<close> declared \<^verbatim>\<open>numeric(10,2)\<close>.\<close>

definition ex_precision_catalog :: information_schema where
  "ex_precision_catalog =
     ex_bank_catalog\<lparr>is_columns := (ex_columns ''banks'')[6 := ex_num ''banks'' ''latitude'' 10 2]\<rparr>"

text \<open>\<open>banks\<close> whose only foreign key is on \<open>neighborhood_id\<close>.\<close>

definition ex_fk_catalog :: information_schema where
  "ex_fk_catalog =
     ex_bank_catalog\<lparr>is_table_constraints := ex_constraints ''banks'' ''neighborhood_id'',
       is_key_column_usage := ex_key_columns ''banks'' ''neighborhood_id''\<rparr>"

text \<open>A boundary table, \<open>districts\<close>, whose \<open>district\<close> column has the type \<open>text\<close>.\<close>

definition ex_districts_catalog :: information_schema where
  "ex_districts_catalog =
     \<lparr>is_tables = ex_tables [''districts''],
      is_columns =
        [ex_col ''districts'' ''district_id'' ''character varying'' ''NO'',
         ex_col ''districts'' ''district'' ''text'' ''YES'',
         ex_col ''districts'' ''geometry'' ''text'' ''YES''],
      is_table_constraints = [],
      is_key_column_usage = []\<rparr>"

definition ex_row :: "string \<Rightarrow> string \<Rightarrow> sqlval \<Rightarrow> string \<Rightarrow> sqlval list" where
  "ex_row i n g st =
     [Some i, Some n, Some ''11'', Some ''Mitte'', Some ''1101'', Some ''Tiergarten'',
      Some ''52.5'', Some ''13.4'', g, Some st]"

definition ex_gis :: "(int, int) postgis" where
  "ex_gis =
     \<lparr>ST_GeomFromEWKT = map_of [(''POINT(0 0)'', 0), (''POINT(3 0)'', 3), (''POINT(5 0)'', 5)],
      ST_SetSRID = (\<lambda>g srid. g),
      ST_Distance = (\<lambda>a b. \<bar>a - b\<bar>)\<rparr>"

definition ex_store ::
  "information_schema \<Rightarrow> (string \<times> sqlval list list) list \<Rightarrow> (int, int) store" where
  "ex_store cat data =
     \<lparr>catalog = cat,
      berlin_source_data = (\<lambda>tn. case map_of data tn of None \<Rightarrow> [] | Some rows \<Rightarrow> rows),
      excluded_tables_log = None, unified_pois = None, processed_tables_log = None,
      idx_poi_geom = False\<rparr>"

definition ex_bank_rows :: "sqlval list list" where
  "ex_bank_rows =
     [ex_row ''1'' ''Bank A'' (Some ''POINT(5 0)'') ''Main St'',
      ex_row ''2'' ''Bank B'' (Some ''POINT(3 0)'') ''Side St'']"

text \<open>Two valid tables, \<open>banks\<close> and \<open>long_term_listings\<close>, the latter with one row.\<close>

definition ex_catalog2 :: information_schema where
  "ex_catalog2 =
     \<lparr>is_tables = ex_tables [''banks'', ''long_term_listings''],
      is_columns = ex_columns ''banks'' @ ex_columns ''long_term_listings'',
      is_table_constraints =
        ex_constraints ''banks'' ''district_id'' @ ex_constraints ''long_term_listings'' ''district_id'',
      is_key_column_usage =
        ex_key_columns ''banks'' ''district_id'' @ ex_key_columns ''long_term_listings'' ''district_id''\<rparr>"

definition ex_listing_store :: "sqlval list list \<Rightarrow> sqlval \<Rightarrow> (int, int) store" where
  "ex_listing_store bank_rows g =
     ex_store ex_catalog2
       [(''banks'', bank_rows), (''long_term_listings'', [ex_row ''7'' ''Flat'' g ''Home St''])]"

text \<open>Two banks at the same point, and one bank without a geometry.\<close>

definition ex_tie_rows :: "sqlval list list" where
  "ex_tie_rows =
     [ex_row ''1'' ''Bank A'' (Some ''POINT(3 0)'') ''Main St'',
      ex_row ''2'' ''Bank B'' (Some ''POINT(3 0)'') ''Side St'']"

definition ex_null_rows :: "sqlval list list" where
  "ex_null_rows = [ex_row ''1'' ''Bank A'' None ''Main St'']"

text \<open>
  The listing at the point 0 with the two banks at 5 and 3; and the same with a geometry
  text that does not parse, in a store that an earlier run has written.
\<close>

definition ex_listing :: "(int, int) store" where
  "ex_listing = ex_listing_store ex_bank_rows (Some ''POINT(0 0)'')"

definition ex_unparseable :: "(int, int) store" where
  "ex_unparseable =
     (ex_listing_store ex_bank_rows (Some ''POINT 0''))
       \<lparr>excluded_tables_log := Some [],
        unified_pois := Some [],
        processed_tables_log := Some [\<lparr>p_table_name = ''banks'', processed_date = 0\<rparr>]\<rparr>"

text \<open>The rows of \<open>all_pois\<close> for a store of the two example tables.\<close>

definition ex_pois :: "sqlval list list \<Rightarrow> sqlval \<Rightarrow> (int, int) poi_row list" where
  "ex_pois bank_rows g =
     projr (all_pois ex_gis (ex_listing_store bank_rows g) [''banks'', ''long_term_listings''])"

definition ex_stored :: "sqlval list list \<Rightarrow> sqlval \<Rightarrow> (int, int) unified_row list" where
  "ex_stored bank_rows g = projr (stored_rows ex_gis (ex_pois bank_rows g))"

text \<open>
  Two banks whose \<open>id\<close>s are 45 letters, and the same 45 letters and a space: with the
  prefix and the hyphen, texts of 50 and of 51 characters.
\<close>

definition ex_long_id_rows :: "sqlval list list" where
  "ex_long_id_rows =
     [ex_row (replicate 45 (CHR ''x'')) ''Bank A'' (Some ''POINT(5 0)'') ''Main St'',
      ex_row (replicate 45 (CHR ''x'') @ '' '') ''Bank B'' (Some ''POINT(3 0)'') ''Side St'']"

section \<open>Helper lemmas\<close>

lemma filter_eq_distinct:
  "distinct xs \<Longrightarrow> x \<in> set xs \<Longrightarrow> filter (\<lambda>y. y = x) xs = [x]"
  by (induction xs) (auto simp: filter_empty_conv)

text \<open>Results of the error monad.\<close>

lemma collect_map_Inr: "collect (map Inr vs) = Inr vs"
  by (induction vs) simp_all

lemma collect_Inr_D: "collect xs = Inr vs \<Longrightarrow> xs = map Inr vs"
  by (induction xs arbitrary: vs) (auto split: sum.splits)

lemma collect_Inr_iff: "collect xs = Inr vs \<longleftrightarrow> xs = map Inr vs"
  using collect_map_Inr collect_Inr_D by blast

lemma exclusion_log_names: "map x_table_name (exclusion_log now cat) = map fst (invalid_tables cat)"
  by (induction "invalid_tables cat") (auto simp: exclusion_log_def comp_def case_prod_beta)

lemma prepared_fields:
  "catalog (create_tables (drop_tables (validation_query now s))) = catalog s"
  "berlin_source_data (create_tables (drop_tables (validation_query now s))) = berlin_source_data s"
  "excluded_tables_log (create_tables (drop_tables (validation_query now s)))
     = Some (exclusion_log now (catalog s))"
  "unified_pois (create_tables (drop_tables (validation_query now s))) = Some []"
  "processed_tables_log (create_tables (drop_tables (validation_query now s))) = Some []"
  "idx_poi_geom (create_tables (drop_tables (validation_query now s))) = False"
  by (simp_all add: create_tables_def drop_tables_def validation_query_def exclusion_log_def)

lemma valid_tables_prepared:
  "valid_tables_sql (create_tables (drop_tables (validation_query now s)))
     = Inr (eligible_tables (catalog s))"
  by (simp add: valid_tables_sql_def prepared_fields eligible_tables_def eligible_from_def
      exclusion_log_names cong: if_cong)

lemma all_pois_cong:
  "catalog s = catalog s' \<Longrightarrow> berlin_source_data s = berlin_source_data s'
     \<Longrightarrow> all_pois gis s nt = all_pois gis s' nt"
proof -
  assume "catalog s = catalog s'" "berlin_source_data s = berlin_source_data s'"
  then have "union_query gis s = union_query gis s'"
    by (intro ext) (simp add: union_query_def Let_def cong: if_cong)
  then show ?thesis
    by (simp add: all_pois_def)
qed

lemma insert_processed_all_result:
  "processed_tables_log s = Some rows \<Longrightarrow>
   \<exists>rows'. insert_processed_all now ts s = Inr (s\<lparr>processed_tables_log := Some rows'\<rparr>)
     \<and> set (map p_table_name rows') = set (map p_table_name rows) \<union> set ts
     \<and> (distinct (map p_table_name rows) \<longrightarrow> distinct (map p_table_name rows'))
     \<and> (set (map processed_date rows) \<subseteq> {now} \<longrightarrow> set (map processed_date rows') \<subseteq> {now})"
proof (induction ts arbitrary: s rows)
  case Nil
  then have "s = s\<lparr>processed_tables_log := Some rows\<rparr>" by simp
  then show ?case by (metis append_Nil2 insert_processed_all.simps(1) set_empty2 sup_bot.right_neutral empty_set)
next
  case (Cons t ts)
  show ?case
  proof (cases "t \<in> set (map p_table_name rows)")
    case True
    then have step: "insert_processed now t s = Inr s"
      using Cons.prems by (simp add: insert_processed_def)
    from Cons.IH [OF Cons.prems] obtain rows' where
      r: "insert_processed_all now ts s = Inr (s\<lparr>processed_tables_log := Some rows'\<rparr>)"
        "set (map p_table_name rows') = set (map p_table_name rows) \<union> set ts"
        "distinct (map p_table_name rows) \<longrightarrow> distinct (map p_table_name rows')"
        "set (map processed_date rows) \<subseteq> {now} \<longrightarrow> set (map processed_date rows') \<subseteq> {now}"
      by blast
    have "insert_processed_all now (t # ts) s = Inr (s\<lparr>processed_tables_log := Some rows'\<rparr>)"
      using step r(1) by (simp add: bind_err_def)
    moreover have "set (map p_table_name rows') = set (map p_table_name rows) \<union> set (t # ts)"
      using r(2) True by auto
    ultimately show ?thesis using r(3,4) by blast
  next
    case False
    let ?rows1 = "rows @ [\<lparr>p_table_name = t, processed_date = now\<rparr>]"
    let ?s1 = "s\<lparr>processed_tables_log := Some ?rows1\<rparr>"
    have step: "insert_processed now t s = Inr ?s1"
      using Cons.prems False by (simp add: insert_processed_def)
    have "processed_tables_log ?s1 = Some ?rows1" by simp
    from Cons.IH [OF this] obtain rows' where
      r: "insert_processed_all now ts ?s1 = Inr (?s1\<lparr>processed_tables_log := Some rows'\<rparr>)"
        "set (map p_table_name rows') = set (map p_table_name ?rows1) \<union> set ts"
        "distinct (map p_table_name ?rows1) \<longrightarrow> distinct (map p_table_name rows')"
        "set (map processed_date ?rows1) \<subseteq> {now} \<longrightarrow> set (map processed_date rows') \<subseteq> {now}"
      by blast
    have "insert_processed_all now (t # ts) s = Inr (s\<lparr>processed_tables_log := Some rows'\<rparr>)"
      using step r(1) by (simp add: bind_err_def)
    moreover have "set (map p_table_name rows') = set (map p_table_name rows) \<union> set (t # ts)"
      using r(2) by auto
    moreover have "distinct (map p_table_name rows) \<longrightarrow> distinct (map p_table_name rows')"
      using r(3) False by auto
    moreover have "set (map processed_date rows) \<subseteq> {now} \<longrightarrow> set (map processed_date rows') \<subseteq> {now}"
      using r(4) by auto
    ultimately show ?thesis by blast
  qed
qed

text \<open>The run, statement by statement, as one case distinction.\<close>

lemma statements_cases:
  "statements gis now s =
     (if eligible_tables (catalog s) = [] then Inl NameError
      else case all_pois gis s (eligible_tables (catalog s)) of
             Inl e \<Rightarrow> Inl e
           | Inr aps \<Rightarrow>
               (case stored_rows gis aps of
                  Inl e \<Rightarrow> Inl e
                | Inr rows \<Rightarrow>
                    if distinct (map poi_id rows) then
                      bind_err
                        (insert_processed_all now (eligible_tables (catalog s))
                           ((create_tables (drop_tables (validation_query now s)))
                              \<lparr>unified_pois := Some rows\<rparr>))
                        create_index
                    else Inl UniqueViolation))"
proof -
  let ?s3 = "create_tables (drop_tables (validation_query now s))"
  have ap: "all_pois gis ?s3 nt = all_pois gis s nt" for nt
    by (rule all_pois_cong) (simp_all add: prepared_fields)
  show ?thesis
    unfolding statements_def Let_def valid_tables_prepared
    by (simp add: bind_err_def insert_sql_def ap insert_unified_pois_def prepared_fields
        stored_rows_def split: sum.splits)
qed

lemma statements_Inr:
  assumes "statements gis now s = Inr s'"
  shows "eligible_tables (catalog s) \<noteq> []"
    and "\<exists>aps rows. all_pois gis s (eligible_tables (catalog s)) = Inr aps
           \<and> stored_rows gis aps = Inr rows
           \<and> distinct (map poi_id rows)
           \<and> unified_pois s' = Some rows"
    and "excluded_tables_log s' = Some (exclusion_log now (catalog s))"
    and "\<exists>rows. processed_tables_log s' = Some rows
           \<and> set (map p_table_name rows) = set (eligible_tables (catalog s))
           \<and> distinct (map p_table_name rows)
           \<and> set (map processed_date rows) \<subseteq> {now}"
    and "catalog s' = catalog s"
    and "berlin_source_data s' = berlin_source_data s"
    and "idx_poi_geom s'"
proof -
  let ?nt = "eligible_tables (catalog s)"
  let ?s3 = "create_tables (drop_tables (validation_query now s))"
  from assms show ne: "?nt \<noteq> []"
    by (auto simp: statements_cases split: if_splits)
  from assms ne obtain aps stored where
    aps: "all_pois gis s ?nt = Inr aps" "stored_rows gis aps = Inr stored"
      "distinct (map poi_id stored)"
    and rest: "bind_err (insert_processed_all now ?nt (?s3\<lparr>unified_pois := Some stored\<rparr>))
                 create_index = Inr s'"
    by (auto simp: statements_cases split: if_splits sum.splits)
  let ?s4 = "?s3\<lparr>unified_pois := Some stored\<rparr>"
  have "processed_tables_log ?s4 = Some []" by (simp add: prepared_fields)
  from insert_processed_all_result [OF this, of now ?nt] obtain rows where
    r: "insert_processed_all now ?nt ?s4 = Inr (?s4\<lparr>processed_tables_log := Some rows\<rparr>)"
       "set (map p_table_name rows) = set ?nt"
       "distinct (map p_table_name rows)"
       "set (map processed_date rows) \<subseteq> {now}"
    by auto
  from rest r(1) have s': "s' = ?s4\<lparr>processed_tables_log := Some rows, idx_poi_geom := True\<rparr>"
    by (simp add: bind_err_def create_index_def)
  show "\<exists>aps rows. all_pois gis s ?nt = Inr aps \<and> stored_rows gis aps = Inr rows
           \<and> distinct (map poi_id rows) \<and> unified_pois s' = Some rows"
    using aps s' by simp
  show "excluded_tables_log s' = Some (exclusion_log now (catalog s))"
    using s' by (simp add: prepared_fields)
  show "\<exists>rows. processed_tables_log s' = Some rows
           \<and> set (map p_table_name rows) = set ?nt
           \<and> distinct (map p_table_name rows)
           \<and> set (map processed_date rows) \<subseteq> {now}"
    using s' r by simp
  show "catalog s' = catalog s" "berlin_source_data s' = berlin_source_data s" "idx_poi_geom s'"
    using s' by (simp_all add: prepared_fields)
qed

lemma statements_succeeds:
  assumes "eligible_tables (catalog s) \<noteq> []"
    and "all_pois gis s (eligible_tables (catalog s)) = Inr aps"
    and "stored_rows gis aps = Inr stored"
    and "distinct (map poi_id stored)"
  shows "\<exists>s'. statements gis now s = Inr s'"
proof -
  let ?nt = "eligible_tables (catalog s)"
  let ?s4 = "(create_tables (drop_tables (validation_query now s)))
               \<lparr>unified_pois := Some stored\<rparr>"
  have "processed_tables_log ?s4 = Some []" by (simp add: prepared_fields)
  from insert_processed_all_result [OF this, of now ?nt] obtain rows where
    "insert_processed_all now ?nt ?s4 = Inr (?s4\<lparr>processed_tables_log := Some rows\<rparr>)"
    by auto
  then show ?thesis
    using assms by (simp add: statements_cases bind_err_def create_index_def)
qed

text \<open>What the insert query selects.\<close>

lemma map_Inr_transfer:
  "map f xs = map Inr ys \<Longrightarrow> (\<And>x y. x \<in> set xs \<Longrightarrow> f x = Inr y \<Longrightarrow> g y = h x)
     \<Longrightarrow> map g ys = map h xs"
proof (induction xs arbitrary: ys)
  case Nil
  then show ?case by simp
next
  case (Cons x xs)
  then obtain y ys' where ys: "ys = y # ys'" by (cases ys) auto
  with Cons.prems have "f x = Inr y" "map f xs = map Inr ys'" by auto
  with Cons ys show ?case by auto
qed

lemma collect_Inl_D: "collect xs = Inl e \<Longrightarrow> Inl e \<in> set xs"
  by (induction xs) (auto split: sum.splits)

lemma select_row_Inr:
  assumes "select_row gis t cols r = Inr p"
  shows "poi_id p = concat_poi_id t (field cols r ''id'')" and "layer p = t"
    and "geometry_of gis (field cols r ''geometry'') = Inr (geometry p)"
  using assms by (auto simp: select_row_def bind_err_def split: sum.splits)

lemma select_row_Inl:
  "select_row gis t cols r = Inl e \<Longrightarrow> e = InvalidGeometry"
  by (auto simp: select_row_def bind_err_def geometry_of_def split: sum.splits option.splits)

lemma union_query_Inr:
  assumes "union_query gis s t = Inr part"
  shows "map (select_row gis t (table_columns (catalog s) t)) (berlin_source_data s t) = map Inr part"
  using assms by (auto simp: union_query_def Let_def collect_Inr_iff split: if_splits)

lemma union_query_poi_id:
  assumes "union_query gis s t = Inr part"
  shows "map poi_id part = map (concat_poi_id t) (source_ids s t)"
proof -
  have "map poi_id part
      = map (\<lambda>r. concat_poi_id t (field (table_columns (catalog s) t) r ''id'')) (berlin_source_data s t)"
    by (rule map_Inr_transfer [OF union_query_Inr [OF assms]]) (simp add: select_row_Inr)
  then show ?thesis by (simp add: source_ids_def comp_def)
qed

lemma union_query_layer:
  assumes "union_query gis s t = Inr part" and "p \<in> set part"
  shows "layer p = t"
proof -
  have "map layer part = map (\<lambda>r. t) (berlin_source_data s t)"
    by (rule map_Inr_transfer [OF union_query_Inr [OF assms(1)]]) (simp add: select_row_Inr)
  then have "set (map layer part) \<subseteq> {t}" by auto
  with assms(2) show ?thesis by auto
qed

lemma union_query_Inl:
  "union_query gis s t = Inl e \<Longrightarrow> e = UndefinedColumn \<or> e = InvalidGeometry"
proof -
  assume a: "union_query gis s t = Inl e"
  show ?thesis
  proof (cases "set selected_columns \<subseteq> set (table_columns (catalog s) t)")
    case True
    with a have "collect (map (select_row gis t (table_columns (catalog s) t))
        (berlin_source_data s t)) = Inl e"
      by (simp add: union_query_def Let_def)
    then obtain r where "select_row gis t (table_columns (catalog s) t) r = Inl e"
      by (auto dest!: collect_Inl_D)
    then show ?thesis by (simp add: select_row_Inl)
  next
    case False
    with a show ?thesis by (simp add: union_query_def Let_def)
  qed
qed

lemma all_pois_Inr:
  assumes "all_pois gis s nt = Inr aps"
  shows "\<exists>parts. map (union_query gis s) nt = map Inr parts \<and> aps = concat parts"
  using assms by (auto simp: all_pois_def bind_err_def collect_Inr_iff split: sum.splits)

lemma all_pois_Inl:
  "all_pois gis s nt = Inl e \<Longrightarrow> e = UndefinedColumn \<or> e = InvalidGeometry"
proof -
  assume "all_pois gis s nt = Inl e"
  then have "collect (map (union_query gis s) nt) = Inl e"
    by (auto simp: all_pois_def bind_err_def split: sum.splits)
  then obtain t where "union_query gis s t = Inl e"
    by (auto dest!: collect_Inl_D)
  then show ?thesis by (rule union_query_Inl)
qed

lemma all_pois_poi_id:
  assumes "all_pois gis s nt = Inr aps"
  shows "map poi_id aps = concat (map (\<lambda>t. map (concat_poi_id t) (source_ids s t)) nt)"
proof -
  from all_pois_Inr [OF assms] obtain parts where
    parts: "map (union_query gis s) nt = map Inr parts" "aps = concat parts" by blast
  have "map (map poi_id) parts = map (\<lambda>t. map (concat_poi_id t) (source_ids s t)) nt"
    by (rule map_Inr_transfer [OF parts(1)]) (simp add: union_query_poi_id)
  then show ?thesis using parts(2) by (simp add: map_concat)
qed

lemma distinct_concat_map:
  "distinct ts \<Longrightarrow> (\<And>t. t \<in> set ts \<Longrightarrow> distinct (f t))
     \<Longrightarrow> (\<And>t u. t \<in> set ts \<Longrightarrow> u \<in> set ts \<Longrightarrow> t \<noteq> u \<Longrightarrow> set (f t) \<inter> set (f u) = {})
     \<Longrightarrow> distinct (concat (map f ts))"
  by (induction ts) fastforce+

text \<open>The prefixes of the allow-list.\<close>

lemma allow_list_prefixes:
  "map (take 4) allow_list = [''gall'', ''food'', ''long'', ''bank'', ''mall'']"
  by (simp add: allow_list_def)

lemma allow_list_prefix_inj:
  assumes "t \<in> set allow_list" "u \<in> set allow_list" "take 4 t = take 4 u"
  shows "t = u"
  using assms by (auto simp: allow_list_def)

lemma allow_list_prefix_length: "t \<in> set allow_list \<Longrightarrow> length (take 4 t) = 4"
  by (auto simp: allow_list_def)

lemma concat_poi_id_eq:
  assumes "t \<in> set allow_list" "u \<in> set allow_list" "concat_poi_id t a = concat_poi_id u b"
  shows "t = u"
proof -
  have "length (take 4 t) = length (take 4 u)"
    using assms(1,2) by (simp only: allow_list_prefix_length)
  with assms(3) have "take 4 t = take 4 u"
    unfolding concat_poi_id_def by simp
  with assms(1,2) show ?thesis by (rule allow_list_prefix_inj)
qed

lemma concat_poi_id_inj:
  "concat_poi_id t (Some a) = concat_poi_id t (Some b) \<Longrightarrow> a = b"
  by (simp add: concat_poi_id_def)

lemma eligible_tables_filter:
  "eligible_tables cat =
     map t_table_name
       [t \<leftarrow> [t \<leftarrow> is_tables cat. t_table_schema t = schema].
          \<not> ilike_anywhere (t_table_name t) ''districts''
          \<and> \<not> ilike_anywhere (t_table_name t) ''neighborhoods''
          \<and> t_table_name t \<notin> set (map fst (invalid_tables cat))
          \<and> t_table_name t \<in> set allow_list]"
proof -
  have "[t_table_name t. t \<leftarrow> xs, t_table_schema t = schema,
           \<not> ilike_anywhere (t_table_name t) ''districts'',
           \<not> ilike_anywhere (t_table_name t) ''neighborhoods'',
           t_table_name t \<notin> X,
           t_table_name t \<in> set allow_list]
        = map t_table_name
           [t \<leftarrow> [t \<leftarrow> xs. t_table_schema t = schema].
              \<not> ilike_anywhere (t_table_name t) ''districts''
              \<and> \<not> ilike_anywhere (t_table_name t) ''neighborhoods''
              \<and> t_table_name t \<notin> X
              \<and> t_table_name t \<in> set allow_list]" for xs :: "tables_row list" and X
    by (induction xs) simp_all
  then show ?thesis unfolding eligible_tables_def eligible_from_def .
qed

lemma eligible_tables_distinct:
  "distinct [t_table_name t. t \<leftarrow> is_tables cat, t_table_schema t = schema]
     \<Longrightarrow> distinct (eligible_tables cat)"
proof -
  assume "distinct [t_table_name t. t \<leftarrow> is_tables cat, t_table_schema t = schema]"
  moreover have "[t_table_name t. t \<leftarrow> xs, t_table_schema t = schema]
      = map t_table_name [t \<leftarrow> xs. t_table_schema t = schema]" for xs :: "tables_row list"
    by (induction xs) simp_all
  ultimately have "distinct (map t_table_name [t \<leftarrow> is_tables cat. t_table_schema t = schema])"
    by simp
  then show ?thesis
    unfolding eligible_tables_filter by (rule distinct_map_filter)
qed

lemma eligible_tables_allowed: "t \<in> set (eligible_tables cat) \<Longrightarrow> t \<in> set allow_list"
  by (auto simp: eligible_tables_filter)

lemma poi_ids_distinct:
  assumes names: "distinct [t_table_name t. t \<leftarrow> is_tables (catalog s), t_table_schema t = schema]"
    and ids: "\<forall>t \<in> set (eligible_tables (catalog s)). id_column_unique s t"
    and aps: "all_pois gis s (eligible_tables (catalog s)) = Inr aps"
  shows "distinct (map poi_id aps)"
proof -
  let ?nt = "eligible_tables (catalog s)"
  let ?f = "\<lambda>t. map (concat_poi_id t) (source_ids s t)"
  have "distinct (concat (map ?f ?nt))"
  proof (rule distinct_concat_map)
    show "distinct ?nt" using names by (rule eligible_tables_distinct)
  next
    fix t assume "t \<in> set ?nt"
    with ids have u: "distinct (source_ids s t)" "None \<notin> set (source_ids s t)"
      by (auto simp: id_column_unique_def)
    have "inj_on (concat_poi_id t) (set (source_ids s t))"
    proof (rule inj_onI)
      fix a b assume "a \<in> set (source_ids s t)" "b \<in> set (source_ids s t)"
        "concat_poi_id t a = concat_poi_id t b"
      with u(2) show "a = b"
        by (cases a; cases b) (auto dest: concat_poi_id_inj)
    qed
    with u(1) show "distinct (?f t)" by (simp add: distinct_map)
  next
    fix t u assume "t \<in> set ?nt" "u \<in> set ?nt" "t \<noteq> u"
    then show "set (?f t) \<inter> set (?f u) = {}"
      by (auto dest!: eligible_tables_allowed dest: concat_poi_id_eq)
  qed
  then show ?thesis by (simp add: all_pois_poi_id [OF aps])
qed

text \<open>The result of a run that succeeds, and of one whose insert query fails.\<close>

lemma run_result:
  assumes "eligible_tables (catalog s) \<noteq> []"
    and "all_pois gis s (eligible_tables (catalog s)) = Inr aps"
    and "stored_rows gis aps = Inr stored"
    and "distinct (map poi_id stored)"
  shows "fst (run gis now s) = None"
    and "unified_pois (snd (run gis now s)) = Some stored"
    and "excluded_tables_log (snd (run gis now s)) = Some (exclusion_log now (catalog s))"
    and "\<exists>rows. processed_tables_log (snd (run gis now s)) = Some rows
           \<and> set (map p_table_name rows) = set (eligible_tables (catalog s))
           \<and> distinct (map p_table_name rows)
           \<and> set (map processed_date rows) \<subseteq> {now}"
    and "catalog (snd (run gis now s)) = catalog s"
    and "berlin_source_data (snd (run gis now s)) = berlin_source_data s"
proof -
  from statements_succeeds [OF assms] obtain s' where s': "statements gis now s = Inr s'"
    by blast
  then have r: "run gis now s = (None, s')"
    by (simp add: run_def engine_begin_def)
  from r show "fst (run gis now s) = None" by simp
  from statements_Inr(2) [OF s'] assms(2,3) r
  show "unified_pois (snd (run gis now s)) = Some stored" by auto
  from statements_Inr(3) [OF s'] r
  show "excluded_tables_log (snd (run gis now s)) = Some (exclusion_log now (catalog s))" by simp
  from statements_Inr(4) [OF s'] r
  show "\<exists>rows. processed_tables_log (snd (run gis now s)) = Some rows
           \<and> set (map p_table_name rows) = set (eligible_tables (catalog s))
           \<and> distinct (map p_table_name rows)
           \<and> set (map processed_date rows) \<subseteq> {now}" by simp
  from statements_Inr(5,6) [OF s'] r
  show "catalog (snd (run gis now s)) = catalog s"
    "berlin_source_data (snd (run gis now s)) = berlin_source_data s" by simp_all
qed

lemma run_error:
  "all_pois gis s (eligible_tables (catalog s)) = Inl e \<Longrightarrow> eligible_tables (catalog s) \<noteq> []
     \<Longrightarrow> run gis now s = (Some e, s)"
  by (simp add: run_def engine_begin_def statements_cases)

lemma run_not_stored:
  "all_pois gis s (eligible_tables (catalog s)) = Inr aps \<Longrightarrow> stored_rows gis aps = Inl e
     \<Longrightarrow> eligible_tables (catalog s) \<noteq> [] \<Longrightarrow> run gis now s = (Some e, s)"
  by (simp add: run_def engine_begin_def statements_cases)

lemma run_unique_violation:
  "all_pois gis s (eligible_tables (catalog s)) = Inr aps \<Longrightarrow> stored_rows gis aps = Inr stored
     \<Longrightarrow> \<not> distinct (map poi_id stored) \<Longrightarrow> eligible_tables (catalog s) \<noteq> []
     \<Longrightarrow> run gis now s = (Some UniqueViolation, s)"
  by (simp add: run_def engine_begin_def statements_cases)

text \<open>The validation of the example catalog, evaluated once.\<close>

lemma ex_catalog2_invalid: "invalid_tables ex_catalog2 = []"
  by code_simp

lemma ex_catalog2_eligible: "eligible_tables ex_catalog2 = [''banks'', ''long_term_listings'']"
proof -
  have "eligible_from ex_catalog2 [] = [''banks'', ''long_term_listings'']"
    by code_simp
  then show ?thesis
    by (simp add: eligible_tables_def ex_catalog2_invalid)
qed

lemma ex_catalog2_names:
  "distinct [t_table_name t. t \<leftarrow> is_tables ex_catalog2, t_table_schema t = schema]"
  by code_simp

lemma filter_concat_keyed:
  "distinct ts \<Longrightarrow> t \<in> set ts \<Longrightarrow> (\<And>u p. u \<in> set ts \<Longrightarrow> p \<in> set (g u) \<Longrightarrow> key p = u)
     \<Longrightarrow> filter (\<lambda>p. key p = t) (concat (map g ts)) = g t"
proof (induction ts)
  case Nil
  then show ?case by simp
next
  case (Cons u ts)
  show ?case
  proof (cases "u = t")
    case True
    with Cons.prems have "t \<notin> set ts" by simp
    with Cons.prems(3) have "filter (\<lambda>p. key p = t) (concat (map g ts)) = []"
      by (auto simp: filter_empty_conv)
    moreover have "filter (\<lambda>p. key p = t) (g u) = g u"
      using Cons.prems(3) True by (auto simp: filter_id_conv)
    ultimately show ?thesis using True by simp
  next
    case False
    with Cons.prems have "t \<in> set ts" "distinct ts" by auto
    then have "filter (\<lambda>p. key p = t) (concat (map g ts)) = g t"
      using Cons.prems(3) by (intro Cons.IH) auto
    moreover have "filter (\<lambda>p. key p = t) (g u) = []"
      using Cons.prems(3) False by (auto simp: filter_empty_conv)
    ultimately show ?thesis by simp
  qed
qed

lemma all_pois_parts:
  assumes "all_pois gis s nt = Inr aps"
  shows "aps = concat (map (\<lambda>t. projr (union_query gis s t)) nt)"
    and "t \<in> set nt \<Longrightarrow> union_query gis s t = Inr (projr (union_query gis s t))"
proof -
  from all_pois_Inr [OF assms] obtain parts where
    parts: "map (union_query gis s) nt = map Inr parts" "aps = concat parts" by blast
  have "map id parts = map (\<lambda>t. projr (union_query gis s t)) nt"
    by (rule map_Inr_transfer [OF parts(1)]) simp
  with parts(2) show "aps = concat (map (\<lambda>t. projr (union_query gis s t)) nt)" by simp
  assume "t \<in> set nt"
  then have "union_query gis s t \<in> set (map Inr parts)"
    using parts(1) by (metis image_eqI set_map)
  then show "union_query gis s t = Inr (projr (union_query gis s t))" by auto
qed

lemma all_pois_of_layer:
  assumes "all_pois gis s nt = Inr aps" and "distinct nt" and "tn \<in> set nt"
  shows "map poi_id [p \<leftarrow> aps. layer p = tn] = map (concat_poi_id tn) (source_ids s tn)"
proof -
  let ?g = "\<lambda>t. projr (union_query gis s t)"
  have "filter (\<lambda>p. layer p = tn) (concat (map ?g nt)) = ?g tn"
  proof (rule filter_concat_keyed [OF assms(2,3)])
    fix u p assume "u \<in> set nt" "p \<in> set (?g u)"
    with all_pois_parts(2) [OF assms(1)] show "layer p = u"
      by (blast intro: union_query_layer)
  qed
  moreover have "map poi_id (?g tn) = map (concat_poi_id tn) (source_ids s tn)"
    using all_pois_parts(2) [OF assms(1,3)] by (rule union_query_poi_id)
  ultimately show ?thesis
    using all_pois_parts(1) [OF assms(1)] by simp
qed

lemma ledger_row:
  assumes "processed_tables_log s = Some rows" "set (map p_table_name rows) = N"
    "set (map processed_date rows) \<subseteq> {now}"
  shows "\<lparr>p_table_name = tn, processed_date = d\<rparr> \<in> set (ledger s) \<longleftrightarrow> tn \<in> N \<and> d = now"
proof
  assume "\<lparr>p_table_name = tn, processed_date = d\<rparr> \<in> set (ledger s)"
  then have "\<lparr>p_table_name = tn, processed_date = d\<rparr> \<in> set rows"
    using assms(1) by (simp add: ledger_def)
  then have "p_table_name \<lparr>p_table_name = tn, processed_date = d\<rparr> \<in> set (map p_table_name rows)"
    "processed_date \<lparr>p_table_name = tn, processed_date = d\<rparr> \<in> set (map processed_date rows)"
    by (simp_all only: set_map image_eqI)
  with assms(2,3) show "tn \<in> N \<and> d = now" by auto
next
  assume a: "tn \<in> N \<and> d = now"
  with assms(2) obtain r where r: "r \<in> set rows" "p_table_name r = tn" by auto
  with assms(3) have "processed_date r = now" by auto
  moreover have "r = \<lparr>p_table_name = p_table_name r, processed_date = processed_date r\<rparr>"
    by simp
  ultimately have "r = \<lparr>p_table_name = tn, processed_date = now\<rparr>"
    using r(2) by simp
  with r a show "\<lparr>p_table_name = tn, processed_date = d\<rparr> \<in> set (ledger s)"
    using assms(1) by (simp add: ledger_def)
qed

text \<open>The order of the nearest-neighbour subquery.\<close>

lemma nulls_last_le_refl: "nulls_last_le a a"
  by (cases a) simp_all

lemma nulls_last_le_trans: "nulls_last_le a b \<Longrightarrow> nulls_last_le b c \<Longrightarrow> nulls_last_le a c"
  by (cases a; cases b; cases c) simp_all

lemma nulls_last_le_total: "\<not> nulls_last_le a b \<Longrightarrow> nulls_last_le b a"
  by (cases a; cases b) simp_all

lemma nulls_last_le_Some: "nulls_last_le a (Some d) \<longleftrightarrow> (\<exists>c. a = Some c \<and> c \<le> d)"
  by (cases a) simp_all

lemma nulls_last_le_None: "nulls_last_le None b \<longleftrightarrow> b = None"
  by (cases b) simp_all

lemma order_by_limit_1_None: "order_by_limit_1 key xs = None \<longleftrightarrow> xs = []"
  by (cases xs) (simp_all split: option.split)

lemma order_by_limit_1_least:
  "order_by_limit_1 key xs = Some p
     \<Longrightarrow> p \<in> set xs \<and> (\<forall>x \<in> set xs. nulls_last_le (key p) (key x))"
proof (induction xs arbitrary: p)
  case Nil
  then show ?case by simp
next
  case (Cons x xs)
  show ?case
  proof (cases "order_by_limit_1 key xs")
    case None
    then have "xs = []" by (simp add: order_by_limit_1_None)
    with Cons.prems show ?thesis by (simp add: nulls_last_le_refl)
  next
    case (Some y)
    from Cons.IH [OF Some] have y: "y \<in> set xs" "\<forall>z \<in> set xs. nulls_last_le (key y) (key z)"
      by simp_all
    show ?thesis
    proof (cases "nulls_last_le (key x) (key y)")
      case True
      with Cons.prems Some have "p = x" by simp
      with True y show ?thesis
        by (auto simp: nulls_last_le_refl intro: nulls_last_le_trans)
    next
      case False
      with Cons.prems Some have "p = y" by simp
      with False y show ?thesis
        by (auto simp: nulls_last_le_total)
    qed
  qed
qed

lemma unique_layers_iff:
  "l \<in> set (unique_layers aps) \<longleftrightarrow> l \<noteq> ''long_term_listings'' \<and> (\<exists>p \<in> set aps. layer p = l)"
  by (auto simp: unique_layers_def)

lemma map_of_map_key: "k \<in> set ks \<Longrightarrow> map_of (map (\<lambda>k. (k, f k)) ks) k = Some (f k)"
  by (induction ks) auto

lemma layer_nearest_query:
  assumes "layer ap = ''long_term_listings''"
  shows "layer_nearest gis aps ap = map (\<lambda>ul. (ul, nearestinfo gis aps ap ul)) (unique_layers aps)"
proof -
  have aux: "concat (map (\<lambda>ul. if ul \<noteq> ''long_term_listings'' then [(ul, f ul)] else []) ls)
      = map (\<lambda>ul. (ul, f ul)) ls" if "\<forall>ul \<in> set ls. ul \<noteq> ''long_term_listings''"
    for ls :: "string list" and f :: "string \<Rightarrow> 'c json"
    using that by (induction ls) simp_all
  have "\<forall>ul \<in> set (unique_layers aps). ul \<noteq> ''long_term_listings''"
    by (simp add: unique_layers_iff)
  from aux [OF this] show ?thesis
    using assms by (simp add: layer_nearest_def)
qed

lemma pois_with_nearest_row:
  assumes "u \<in> set (pois_with_nearest gis aps)"
  shows "\<exists>ap \<in> set aps. poi_id u = poi_id ap \<and> layer u = layer ap \<and> geometry u = geometry ap
           \<and> nearest_pois u = jsonb_object_agg (layer_nearest gis aps ap)"
  using assms by (auto simp: pois_with_nearest_def)

text \<open>The entry of a candidate layer in the \<open>nearest_pois\<close> of a record of the query layer.\<close>

lemma query_row_entry:
  assumes "layer ap = ''long_term_listings''" and "l \<in> set (unique_layers aps)"
  shows "\<exists>p kvs. nearest_row gis aps ap l = Some p \<and> p \<in> set aps \<and> layer p = l
      \<and> (\<forall>x \<in> set aps. layer x = l \<longrightarrow>
            nulls_last_le (sql_distance gis (geometry ap) (geometry p))
              (sql_distance gis (geometry ap) (geometry x)))
      \<and> jsonb_object_agg (layer_nearest gis aps ap) = Some (JObject kvs)
      \<and> map_of kvs l = Some (jsonb_build_object gis ap p)"
proof -
  let ?cs = "[p \<leftarrow> aps. layer p = l]"
  let ?key = "\<lambda>p. sql_distance gis (geometry ap) (geometry p)"
  from assms(2) have "?cs \<noteq> []"
    by (auto simp: unique_layers_iff filter_empty_conv)
  then obtain p where p: "order_by_limit_1 ?key ?cs = Some p"
    using order_by_limit_1_None [of ?key ?cs] by (cases "order_by_limit_1 ?key ?cs") auto
  from order_by_limit_1_least [OF p] have least:
    "p \<in> set aps" "layer p = l" "\<forall>x \<in> set aps. layer x = l \<longrightarrow> nulls_last_le (?key p) (?key x)"
    by auto
  let ?kvs = "map (\<lambda>ul. (ul, nearestinfo gis aps ap ul)) (unique_layers aps)"
  have "?kvs \<noteq> []" using assms(2) by auto
  then have agg: "jsonb_object_agg (layer_nearest gis aps ap) = Some (JObject ?kvs)"
    by (simp add: jsonb_object_agg_def layer_nearest_query [OF assms(1)])
  have "map_of ?kvs l = Some (nearestinfo gis aps ap l)"
    using assms(2) by (rule map_of_map_key)
  also have "nearestinfo gis aps ap l = jsonb_build_object gis ap p"
    using p by (simp add: nearestinfo_def nearest_row_def)
  finally show ?thesis
    using p least agg by (auto simp: nearest_row_def)
qed

lemma jsonb_build_object_members:
  "json_get (jsonb_build_object gis ap p) ''id'' = Some (JString (poi_id p))"
  "json_get (jsonb_build_object gis ap p) ''distance''
     = Some (case sql_distance gis (geometry ap) (geometry p) of None \<Rightarrow> JNull | Some d \<Rightarrow> JNumber d)"
  by (simp_all add: jsonb_build_object_def)

lemma map_Inr_list_all2:
  "map f xs = map Inr ys \<Longrightarrow> (\<And>x y. x \<in> set xs \<Longrightarrow> f x = Inr y \<Longrightarrow> R x y)
     \<Longrightarrow> list_all2 R xs ys"
proof (induction xs arbitrary: ys)
  case Nil
  then show ?case by simp
next
  case (Cons x xs)
  then obtain y ys' where ys: "ys = y # ys'" by (cases ys) auto
  with Cons.prems have "f x = Inr y" "map f xs = map Inr ys'" by auto
  with Cons ys show ?case by auto
qed

lemma collect_has_Inl: "Inl e \<in> set xs \<Longrightarrow> \<exists>e'. collect xs = Inl e'"
  by (induction xs) (auto split: sum.splits)

lemma select_row_null_geometry:
  "select_row gis t cols r = Inr p \<Longrightarrow> field cols r ''geometry'' = None \<Longrightarrow> geometry p = None"
  by (auto simp: select_row_def bind_err_def geometry_of_def split: sum.splits)

lemma select_row_unparseable:
  "field cols r ''geometry'' = Some w \<Longrightarrow> ST_GeomFromEWKT gis w = None
     \<Longrightarrow> select_row gis t cols r = Inl InvalidGeometry"
  by (simp add: select_row_def bind_err_def geometry_of_def)

lemma union_query_unparseable:
  assumes "r \<in> set (berlin_source_data s t)"
    and "field (table_columns (catalog s) t) r ''geometry'' = Some w"
    and "ST_GeomFromEWKT gis w = None"
  shows "\<exists>e. union_query gis s t = Inl e"
proof (cases "set selected_columns \<subseteq> set (table_columns (catalog s) t)")
  case True
  have "Inl InvalidGeometry
      \<in> set (map (select_row gis t (table_columns (catalog s) t)) (berlin_source_data s t))"
    using assms(1) select_row_unparseable [OF assms(2,3), of t] by force
  from collect_has_Inl [OF this] True show ?thesis
    by (simp add: union_query_def Let_def)
next
  case False
  then show ?thesis by (simp add: union_query_def Let_def)
qed

lemma all_pois_unparseable:
  assumes "t \<in> set nt" and "r \<in> set (berlin_source_data s t)"
    and "field (table_columns (catalog s) t) r ''geometry'' = Some w"
    and "ST_GeomFromEWKT gis w = None"
  shows "\<exists>e. all_pois gis s nt = Inl e"
proof -
  from union_query_unparseable [OF assms(2,3,4)] obtain e where "union_query gis s t = Inl e"
    by blast
  with assms(1) have "Inl e \<in> set (map (union_query gis s) nt)" by force
  from collect_has_Inl [OF this] show ?thesis
    by (auto simp: all_pois_def bind_err_def)
qed

text \<open>What the table stores.\<close>

lemma assign_varchar_fits: "length x \<le> n \<Longrightarrow> assign_varchar n x = Inr x"
  by (simp add: assign_varchar_def)

lemma assign_varchar_not_cut:
  "assign_varchar n x = Inr y \<Longrightarrow> \<not> cut_by_varchar n x \<Longrightarrow> y = x"
  by (auto simp: assign_varchar_def cut_by_varchar_def split: if_splits)

lemma assign_varchar_take:
  "assign_varchar n x = Inr y \<Longrightarrow> k \<le> n \<Longrightarrow> take k y = take k x"
  by (auto simp: assign_varchar_def min_def split: if_splits)

lemma assign_varchar_Inl: "assign_varchar n x = Inl e \<Longrightarrow> e = StringDataRightTruncation"
  by (auto simp: assign_varchar_def split: if_splits)

lemma assign_varchar_null_Inl:
  "assign_varchar_null n v = Inl e \<Longrightarrow> e = StringDataRightTruncation"
  by (auto simp: assign_varchar_null_def bind_err_def split: option.splits sum.splits
      dest: assign_varchar_Inl)

lemma assign_decimal_Inl:
  "assign_decimal p k x = Inl e \<Longrightarrow> e = NumericValueOutOfRange \<or> e = InvalidTextRepresentation"
  by (auto simp: assign_decimal_def Let_def split: if_splits option.splits)

lemma assign_decimal_null_Inl:
  "assign_decimal_null p k v = Inl e
     \<Longrightarrow> e = NumericValueOutOfRange \<or> e = InvalidTextRepresentation"
  by (auto simp: assign_decimal_null_def bind_err_def split: option.splits sum.splits
      dest: assign_decimal_Inl)

lemma bind_err_Inl: "bind_err m f = Inl e \<Longrightarrow> m = Inl e \<or> (\<exists>v. m = Inr v \<and> f v = Inl e)"
  by (cases m) (simp_all add: bind_err_def)

lemma bind_err_Inr: "bind_err m f = Inr r \<Longrightarrow> \<exists>v. m = Inr v \<and> f v = Inr r"
  by (cases m) (simp_all add: bind_err_def)

lemma assign_unified_pois_Inl:
  assumes "assign_unified_pois u = Inl e"
  shows "e \<noteq> UniqueViolation"
proof -
  from assms have "e = StringDataRightTruncation \<or> e = NumericValueOutOfRange
      \<or> e = InvalidTextRepresentation"
    unfolding assign_unified_pois_def
    by (auto dest!: bind_err_Inl dest: assign_varchar_Inl assign_varchar_null_Inl
        assign_decimal_null_Inl)
  then show ?thesis by auto
qed

lemma assign_unified_pois_Inr:
  assumes "assign_unified_pois u = Inr r"
  shows "assign_varchar 50 (poi_id u) = Inr (poi_id r)"
    and "assign_varchar 100 (layer u) = Inr (layer r)"
    and "geometry r = geometry u"
    and "attributes r = attributes u"
    and "nearest_pois r = nearest_pois u"
  using assms unfolding assign_unified_pois_def
  by (auto dest!: bind_err_Inr)

lemma stored_rows_Inr:
  assumes "stored_rows gis aps = Inr rows"
  shows "list_all2 (\<lambda>u r. assign_unified_pois u = Inr r) (pois_with_nearest gis aps) rows"
proof -
  from assms have "map assign_unified_pois (pois_with_nearest gis aps) = map Inr rows"
    by (simp add: stored_rows_def collect_Inr_iff)
  then show ?thesis
    by (rule map_Inr_list_all2) simp
qed

lemma stored_rows_Inl: "stored_rows gis aps = Inl e \<Longrightarrow> e \<noteq> UniqueViolation"
proof -
  assume "stored_rows gis aps = Inl e"
  then have "Inl e \<in> set (map assign_unified_pois (pois_with_nearest gis aps))"
    unfolding stored_rows_def by (rule collect_Inl_D)
  then have "\<exists>u \<in> set (pois_with_nearest gis aps). assign_unified_pois u = Inl e"
    by auto
  then show ?thesis by (auto dest: assign_unified_pois_Inl)
qed

lemma stored_rows_aps:
  assumes "stored_rows gis aps = Inr rows"
  shows "list_all2 (\<lambda>p r. assign_varchar 50 (poi_id p) = Inr (poi_id r)
            \<and> assign_varchar 100 (layer p) = Inr (layer r)
            \<and> geometry r = geometry p) aps rows"
proof -
  have "list_all2 (\<lambda>p r. assign_unified_pois
      \<lparr>poi_id = poi_id p, name = name p, layer = layer p,
        district_id = district_id p, district = district p,
        neighborhood_id = neighborhood_id p, neighborhood = neighborhood p,
        latitude = latitude p, longitude = longitude p,
        geometry = geometry p, attributes = attributes p,
        nearest_pois = jsonb_object_agg (layer_nearest gis aps p)\<rparr> = Inr r) aps rows"
    using stored_rows_Inr [OF assms] by (simp add: pois_with_nearest_def list_all2_map1)
  then show ?thesis
    by (rule list_all2_mono) (auto dest: assign_unified_pois_Inr)
qed

lemma list_all2_filter:
  "list_all2 R xs ys \<Longrightarrow> (\<And>x y. x \<in> set xs \<Longrightarrow> R x y \<Longrightarrow> P x = Q y)
     \<Longrightarrow> list_all2 R (filter P xs) (filter Q ys)"
  by (induction rule: list_all2_induct) auto

lemma list_all2_map_eq:
  "list_all2 R xs ys \<Longrightarrow> (\<And>x y. x \<in> set xs \<Longrightarrow> R x y \<Longrightarrow> f x = g y) \<Longrightarrow> map f xs = map g ys"
  by (induction rule: list_all2_induct) auto

lemma list_all2_source:
  "list_all2 R xs ys \<Longrightarrow> y \<in> set ys \<Longrightarrow> \<exists>x \<in> set xs. R x y"
  by (induction rule: list_all2_induct) auto

lemma allow_list_short: "t \<in> set allow_list \<Longrightarrow> length t \<le> 100"
  by (auto simp: allow_list_def)

lemma all_pois_layers:
  assumes "all_pois gis s nt = Inr aps" and "p \<in> set aps"
  shows "layer p \<in> set nt" and "\<exists>i. poi_id p = concat_poi_id (layer p) i"
proof -
  from assms(2) all_pois_parts(1) [OF assms(1)] obtain t where
    t: "t \<in> set nt" "p \<in> set (projr (union_query gis s t))" by auto
  note u = all_pois_parts(2) [OF assms(1) t(1)]
  from union_query_layer [OF u t(2)] t(1) show "layer p \<in> set nt" by simp
  from union_query_poi_id [OF u] t(2)
  have "poi_id p \<in> set (map (concat_poi_id t) (source_ids s t))"
    by (metis image_eqI set_map)
  with union_query_layer [OF u t(2)] show "\<exists>i. poi_id p = concat_poi_id (layer p) i"
    by auto
qed

text \<open>The stored rows of one layer: one for each source row, in order.\<close>

lemma stored_rows_of_layer:
  assumes "all_pois gis s nt = Inr aps" and "stored_rows gis aps = Inr rows"
    and "distinct nt" and "tn \<in> set nt" and "set nt \<subseteq> set allow_list"
  shows "map (\<lambda>u. Inr (poi_id u)) [u \<leftarrow> rows. layer u = tn]
      = map (\<lambda>i. assign_varchar 50 (concat_poi_id tn i)) (source_ids s tn)"
proof -
  let ?R = "\<lambda>p r. assign_varchar 50 (poi_id p) = Inr (poi_id r)
      \<and> assign_varchar 100 (layer p) = Inr (layer r) \<and> geometry r = geometry p"
  have "list_all2 ?R [p \<leftarrow> aps. layer p = tn] [u \<leftarrow> rows. layer u = tn]"
  proof (rule list_all2_filter [OF stored_rows_aps [OF assms(2)]])
    fix p r assume "p \<in> set aps" and r: "?R p r"
    with all_pois_layers(1) [OF assms(1)] assms(5) have "length (layer p) \<le> 100"
      by (auto intro: allow_list_short)
    with r have "layer r = layer p" by (simp add: assign_varchar_fits)
    then show "(layer p = tn) = (layer r = tn)" by simp
  qed
  then have "map (\<lambda>p. assign_varchar 50 (poi_id p)) [p \<leftarrow> aps. layer p = tn]
      = map (\<lambda>u. Inr (poi_id u)) [u \<leftarrow> rows. layer u = tn]"
    by (rule list_all2_map_eq) simp
  moreover have "map (\<lambda>p. assign_varchar 50 (poi_id p)) [p \<leftarrow> aps. layer p = tn]
      = map (assign_varchar 50) (map poi_id [p \<leftarrow> aps. layer p = tn])"
    by simp
  ultimately show ?thesis
    by (simp add: all_pois_of_layer [OF assms(1,3,4)] comp_def)
qed

text \<open>
  A stored \<open>poi_id\<close> keeps the first four characters, those of the name of its table;
  and it is the selected one where the width cuts nothing.
\<close>

lemma concat_poi_id_prefix: "t \<in> set allow_list \<Longrightarrow> take 4 (concat_poi_id t i) = take 4 t"
  using allow_list_prefix_length [of t] by (simp add: concat_poi_id_def)

lemma stored_row_source:
  assumes "all_pois gis s nt = Inr aps" and "stored_rows gis aps = Inr rows"
    and "set nt \<subseteq> set allow_list" and "u \<in> set rows"
  shows "layer u \<in> set allow_list" and "take 4 (poi_id u) = take 4 (layer u)"
proof -
  from list_all2_source [OF stored_rows_aps [OF assms(2)] assms(4)] obtain p where
    p: "p \<in> set aps" "assign_varchar 50 (poi_id p) = Inr (poi_id u)"
      "assign_varchar 100 (layer p) = Inr (layer u)" by blast
  from all_pois_layers [OF assms(1) p(1)] assms(3) obtain i where
    l: "layer p \<in> set allow_list" "poi_id p = concat_poi_id (layer p) i" by blast
  from l(1) p(3) have eq: "layer u = layer p"
    by (simp add: assign_varchar_fits allow_list_short)
  with l(1) show "layer u \<in> set allow_list" by simp
  from assign_varchar_take [OF p(2), of 4] have "take 4 (poi_id u) = take 4 (poi_id p)" by simp
  with l eq show "take 4 (poi_id u) = take 4 (layer u)"
    by (simp add: concat_poi_id_prefix)
qed

lemma stored_poi_ids_not_cut:
  assumes "all_pois gis s nt = Inr aps" and "stored_rows gis aps = Inr rows"
    and "\<forall>t \<in> set nt. \<forall>i \<in> set (source_ids s t). \<not> cut_by_varchar 50 (concat_poi_id t i)"
  shows "map poi_id rows = map poi_id aps"
proof -
  have "map poi_id aps = map poi_id rows"
  proof (rule list_all2_map_eq [OF stored_rows_aps [OF assms(2)]])
    fix p r
    assume p: "p \<in> set aps"
      and r: "assign_varchar 50 (poi_id p) = Inr (poi_id r)
        \<and> assign_varchar 100 (layer p) = Inr (layer r) \<and> geometry r = geometry p"
    from p have "poi_id p \<in> set (map poi_id aps)" by simp
    then obtain t i where "t \<in> set nt" "i \<in> set (source_ids s t)" "poi_id p = concat_poi_id t i"
      unfolding all_pois_poi_id [OF assms(1)] by auto
    with assms(3) have "\<not> cut_by_varchar 50 (poi_id p)" by auto
    with r show "poi_id p = poi_id r" by (auto dest: assign_varchar_not_cut)
  qed
  then show ?thesis by simp
qed

text \<open>The runs of the example stores, from three evaluations each.\<close>

lemma ex_listing_store_result:
  assumes "\<not> isl (all_pois ex_gis (ex_listing_store bank_rows g) [''banks'', ''long_term_listings''])"
    and "\<not> isl (stored_rows ex_gis (ex_pois bank_rows g))"
    and "distinct (map poi_id (ex_stored bank_rows g))"
  shows "fst (run ex_gis now (ex_listing_store bank_rows g)) = None"
    and "unified_pois (snd (run ex_gis now (ex_listing_store bank_rows g)))
           = Some (ex_stored bank_rows g)"
    and "nearest_entry (snd (run ex_gis now (ex_listing_store bank_rows g))) pid l
           = nearest_in (ex_stored bank_rows g) pid l"
    and "catalog (snd (run ex_gis now (ex_listing_store bank_rows g))) = ex_catalog2"
    and "berlin_source_data (snd (run ex_gis now (ex_listing_store bank_rows g)))
           = berlin_source_data (ex_listing_store bank_rows g)"
    and "\<exists>rows. processed_tables_log (snd (run ex_gis now (ex_listing_store bank_rows g))) = Some rows
           \<and> set (map p_table_name rows) = {''banks'', ''long_term_listings''}
           \<and> set (map processed_date rows) \<subseteq> {now}"
proof -
  let ?s = "ex_listing_store bank_rows g"
  have c: "catalog ?s = ex_catalog2"
    by (simp add: ex_listing_store_def ex_store_def)
  have ne: "eligible_tables (catalog ?s) \<noteq> []"
    by (simp add: c ex_catalog2_eligible)
  have ap: "all_pois ex_gis ?s (eligible_tables (catalog ?s)) = Inr (ex_pois bank_rows g)"
    using assms(1) by (simp add: c ex_catalog2_eligible ex_pois_def)
  have st: "stored_rows ex_gis (ex_pois bank_rows g) = Inr (ex_stored bank_rows g)"
    using assms(2) by (simp add: ex_stored_def)
  note R = run_result [OF ne ap st assms(3), of now]
  from R(1) show "fst (run ex_gis now ?s) = None" .
  from R(2) show "unified_pois (snd (run ex_gis now ?s)) = Some (ex_stored bank_rows g)" .
  from R(2) show "nearest_entry (snd (run ex_gis now ?s)) pid l
      = nearest_in (ex_stored bank_rows g) pid l"
    by (simp add: nearest_entry_def)
  from R(5) show "catalog (snd (run ex_gis now ?s)) = ex_catalog2" by (simp add: c)
  from R(6) show "berlin_source_data (snd (run ex_gis now ?s)) = berlin_source_data ?s" .
  from R(4) show "\<exists>rows. processed_tables_log (snd (run ex_gis now ?s)) = Some rows
      \<and> set (map p_table_name rows) = {''banks'', ''long_term_listings''}
      \<and> set (map processed_date rows) \<subseteq> {now}"
    by (auto simp: c ex_catalog2_eligible)
qed

lemma ex_listing_evaluated:
  "\<not> isl (all_pois ex_gis (ex_listing_store ex_bank_rows (Some ''POINT(0 0)''))
      [''banks'', ''long_term_listings''])"
  "\<not> isl (stored_rows ex_gis (ex_pois ex_bank_rows (Some ''POINT(0 0)'')))"
  "distinct (map poi_id (ex_stored ex_bank_rows (Some ''POINT(0 0)'')))"
  by code_simp+

lemma ex_listing_catalog: "catalog ex_listing = ex_catalog2"
  by (simp add: ex_listing_def ex_listing_store_def ex_store_def)

lemma ex_listing_run:
  "fst (run ex_gis now ex_listing) = None"
  "unified_pois (snd (run ex_gis now ex_listing)) = Some (ex_stored ex_bank_rows (Some ''POINT(0 0)''))"
  "catalog (snd (run ex_gis now ex_listing)) = ex_catalog2"
  "berlin_source_data (snd (run ex_gis now ex_listing)) = berlin_source_data ex_listing"
  "\<exists>rows. processed_tables_log (snd (run ex_gis now ex_listing)) = Some rows
     \<and> set (map p_table_name rows) = {''banks'', ''long_term_listings''}
     \<and> set (map processed_date rows) \<subseteq> {now}"
  unfolding ex_listing_def
  by (rule ex_listing_store_result [OF ex_listing_evaluated])+

lemma ex_listing_pois:
  "all_pois ex_gis ex_listing (eligible_tables (catalog ex_listing))
     = Inr (ex_pois ex_bank_rows (Some ''POINT(0 0)''))"
  "stored_rows ex_gis (ex_pois ex_bank_rows (Some ''POINT(0 0)''))
     = Inr (ex_stored ex_bank_rows (Some ''POINT(0 0)''))"
proof -
  have "all_pois ex_gis ex_listing [''banks'', ''long_term_listings'']
      = Inr (ex_pois ex_bank_rows (Some ''POINT(0 0)''))"
    using ex_listing_evaluated(1) by (simp add: ex_pois_def ex_listing_def)
  then show "all_pois ex_gis ex_listing (eligible_tables (catalog ex_listing))
      = Inr (ex_pois ex_bank_rows (Some ''POINT(0 0)''))"
    by (simp add: ex_listing_catalog ex_catalog2_eligible)
  show "stored_rows ex_gis (ex_pois ex_bank_rows (Some ''POINT(0 0)''))
      = Inr (ex_stored ex_bank_rows (Some ''POINT(0 0)''))"
    using ex_listing_evaluated(2) by (simp add: ex_stored_def)
qed

section \<open>Completeness: the missing columns\<close>

text \<open>
  LOWER maps a capital letter to the letter 32 codes above it and leaves every other
  character alone; no required column has a capital letter in its name. So the join
  condition \<^verbatim>\<open>LOWER(c.column_name) = rc.col\<close> holds exactly where the two names are the
  same but for case.
\<close>

lemma lower_char_not_upper: "\<forall>a. \<not> is_upper a \<longrightarrow> lower_char a = a"
  by code_simp

lemma lower_char_upper: "\<forall>a. is_upper a \<longrightarrow> (of_char (lower_char a) :: int) = of_char a + 32"
  by code_simp

lemma req_cols_lower: "\<forall>col \<in> set req_cols. \<forall>b \<in> set col. \<not> is_upper b"
  by code_simp

lemma lower_char_same:
  assumes "\<not> is_upper b"
  shows "lower_char a = b \<longleftrightarrow>
    (a = b \<or> (is_upper a \<and> (of_char b :: int) = of_char a + 32)
      \<or> (is_upper b \<and> (of_char a :: int) = of_char b + 32))"
proof (cases "is_upper a")
  case True
  with lower_char_upper have "(of_char (lower_char a) :: int) = of_char a + 32" by blast
  moreover have "a \<noteq> b" using True assms by auto
  moreover have "lower_char a = b \<longleftrightarrow> (of_char (lower_char a) :: int) = of_char b"
    by simp
  ultimately show ?thesis using True assms by auto
next
  case False
  with lower_char_not_upper have "lower_char a = a" by blast
  with False assms show ?thesis by auto
qed

lemma sql_lower_same:
  "\<forall>b \<in> set col. \<not> is_upper b \<Longrightarrow> sql_lower n = col \<longleftrightarrow> same_ignoring_case n col"
proof (induction n arbitrary: col)
  case Nil
  then show ?case by (auto simp: sql_lower_def same_ignoring_case_def)
next
  case (Cons a n)
  show ?case
  proof (cases col)
    case Nil
    then show ?thesis by (simp add: sql_lower_def same_ignoring_case_def)
  next
    case (Cons b col')
    with Cons.prems have b: "\<not> is_upper b" and "\<forall>b \<in> set col'. \<not> is_upper b" by simp_all
    from Cons.IH [OF this(2)] lower_char_same [OF b, of a] show ?thesis
      by (simp add: Cons sql_lower_def same_ignoring_case_def)
  qed
qed

lemma missing_join_set:
  "set (missing_join cat) = {(tn, col). tn \<in> set (all_tables cat) \<and> col \<in> missing_names cat tn}"
proof -
  have "sql_lower n = col \<longleftrightarrow> same_ignoring_case n col" if "col \<in> set req_cols" for n col
    using that req_cols_lower by (intro sql_lower_same) blast
  then show ?thesis
    by (auto simp: missing_join_def missing_names_def filter_empty_conv)
qed

text \<open>\<^verbatim>\<open>STRING_AGG\<close> with the separator \<^verbatim>\<open>', '\<close> joins the names by commas.\<close>

lemma string_agg_comma_joined: "string_agg ns '', '' = comma_joined ns"
  by (induction ns "'', ''" rule: string_agg.induct) (simp_all add: comma_joined_def)

lemma missing_columns_map:
  "missing_columns cat =
     map (\<lambda>tn. (tn, string_agg (sort (remdups [col. (tn', col) \<leftarrow> missing_join cat, tn' = tn])) '', ''))
       (remdups (map fst (missing_join cat)))"
  by (simp add: missing_columns_def)

lemma other_reasons:
  "[r \<leftarrow> datatype_issues cat. fst r = tn \<and> take 17 (snd r) = ''Missing columns: ''] = []"
  "[r \<leftarrow> null_issues cat. fst r = tn \<and> take 17 (snd r) = ''Missing columns: ''] = []"
  "[r \<leftarrow> pk_issues cat. fst r = tn \<and> take 17 (snd r) = ''Missing columns: ''] = []"
  "[r \<leftarrow> fk_issues cat. fst r = tn \<and> take 17 (snd r) = ''Missing columns: ''] = []"
  by (auto simp: filter_empty_conv datatype_issues_def null_issues_def pk_issues_def fk_issues_def)

text \<open>
  C7: a table of \<open>all_tables\<close> that lacks required columns, a column of the table
  standing for the required one when the two names are the same but for case, has exactly
  one record whose reason starts \<^verbatim>\<open>Missing columns: \<close> among the records the validation
  inserts; the rest of that reason is the missing names, each once, in ascending order,
  each but the last followed by a comma and a space.
\<close>

theorem missing_columns_reason:
  assumes "tn \<in> set (all_tables cat)" and "missing_names cat tn \<noteq> {}"
  shows "[r \<leftarrow> invalid_tables cat. fst r = tn \<and> take 17 (snd r) = ''Missing columns: '']
      = [(tn, ''Missing columns: '' @ comma_joined (sorted_list_of_set (missing_names cat tn)))]"
proof -
  let ?ns = "\<lambda>tn. sort (remdups [col. (tn', col) \<leftarrow> missing_join cat, tn' = tn])"
  let ?f = "\<lambda>tn. (tn, ''Missing columns: '' @ string_agg (?ns tn) '', '')"
  have "set [col. (tn', col) \<leftarrow> missing_join cat, tn' = tn] = missing_names cat tn"
    using assms(1) by (auto simp: missing_join_set)
  then have ns: "?ns tn = sorted_list_of_set (missing_names cat tn)"
    by (simp only: sorted_list_of_set_sort_remdups [symmetric])
  have mem: "tn \<in> set (remdups (map fst (missing_join cat)))"
    using assms by (force simp: missing_join_set)
  have part: "[(tn, ''Missing columns: '' @ m). (tn, m) \<leftarrow> missing_columns cat]
      = map ?f (remdups (map fst (missing_join cat)))"
    by (simp add: missing_columns_map comp_def)
  have "[r \<leftarrow> map ?f (remdups (map fst (missing_join cat))).
           fst r = tn \<and> take 17 (snd r) = ''Missing columns: '']
        = map ?f (filter (\<lambda>y. y = tn) (remdups (map fst (missing_join cat))))"
    by (simp add: filter_map comp_def)
  also have "\<dots> = [?f tn]"
    using filter_eq_distinct [OF distinct_remdups mem] by simp
  finally have "[r \<leftarrow> invalid_tables cat. fst r = tn \<and> take 17 (snd r) = ''Missing columns: '']
      = [?f tn]"
    unfolding invalid_tables_def by (simp only: filter_append part other_reasons append_Nil2)
  then show ?thesis
    by (simp only: ns string_agg_comma_joined)
qed

theorem missing_columns_reason_witness:
  "''banks'' \<in> set (all_tables ex_missing_catalog)
   \<and> ''ID'' \<in> set (map c_column_name (is_columns ex_missing_catalog))
   \<and> missing_names ex_missing_catalog ''banks'' = {''geometry'', ''latitude'', ''name''}
   \<and> [r \<leftarrow> invalid_tables ex_missing_catalog.
         fst r = ''banks'' \<and> take 17 (snd r) = ''Missing columns: '']
       = [(''banks'', ''Missing columns: geometry, latitude, name'')]"
proof -
  have h1: "''banks'' \<in> set (all_tables ex_missing_catalog)"
    by code_simp
  have h2: "missing_names ex_missing_catalog ''banks'' = {''geometry'', ''latitude'', ''name''}"
    by code_simp
  have h3: "comma_joined (sorted_list_of_set {''geometry'', ''latitude'', ''name''})
      = ''geometry, latitude, name''"
    by code_simp
  have h4: "''ID'' \<in> set (map c_column_name (is_columns ex_missing_catalog))"
    by code_simp
  have "missing_names ex_missing_catalog ''banks'' \<noteq> {}"
    unfolding h2 by simp
  from missing_columns_reason [OF h1 this] h1 h2 h3 h4 show ?thesis
    by simp
qed

section \<open>Type correctness and the keys\<close>

text \<open>
  The precision clause of \<open>datatype_issues\<close> compares with \<open>expected_length\<close>, which
  is NULL in every row of \<open>expected_schema\<close>: the comparison is unknown and the clause
  selects nothing.
\<close>

lemma precision_clause: "sql_where (sql_or (Some a) (sql_and (Some b) (sql_neq x None))) = a"
  by (cases x) (auto simp: sql_where_def sql_or_def sql_and_def sql_neq_def)

lemma datatype_issues_type_only:
  "datatype_issues cat =
     [(c_table_name c, ''Expected data type '' @ e_expected_type e @ '', got '' @ c_data_type c).
        c \<leftarrow> is_columns cat, e \<leftarrow> expected_schema,
        sql_lower (c_column_name c) = e_column_name e,
        c_table_schema c = schema,
        c_data_type c \<noteq> e_expected_type e]"
  by (simp add: datatype_issues_def expected_schema_def precision_clause cong: if_cong)

text \<open>
  C3: \<open>banks\<close> with \<open>latitude\<close> declared \<^verbatim>\<open>numeric(10,2)\<close> gets no record from
  \<open>datatype_issues\<close> (nor from any other check), and the run inserts its two rows into
  \<open>unified_pois\<close>.
\<close>

theorem precision_mismatch_not_reported:
  "datatype_issues ex_precision_catalog = []
   \<and> invalid_tables ex_precision_catalog = []
   \<and> (case run ex_gis 1 (ex_store ex_precision_catalog [(''banks'', ex_bank_rows)]) of
        (e, s) \<Rightarrow> (e, map_option (map (\<lambda>u. (poi_id u, layer u))) (unified_pois s)))
     = (None, Some [(''bank-1'', ''banks''), (''bank-2'', ''banks'')])"
  by code_simp

text \<open>
  C5: for a schema that holds only the table \<open>districts\<close>, \<open>all_tables\<close> is empty, yet
  the validation inserts a record for \<open>districts\<close>: \<open>datatype_issues\<close> reads
  \<^verbatim>\<open>information_schema.columns\<close> of the whole schema, not of \<open>all_tables\<close>.
\<close>

theorem districts_table_is_checked:
  "all_tables ex_districts_catalog = []
   \<and> datatype_issues ex_districts_catalog
       = [(''districts'', ''Expected data type character varying, got text'')]
   \<and> invalid_tables ex_districts_catalog
       = [(''districts'', ''Expected data type character varying, got text'')]"
  by code_simp

text \<open>
  C6: \<open>banks\<close> has no foreign key on \<open>district_id\<close>, only one on \<open>neighborhood_id\<close>,
  and \<open>fk_issues\<close> reports nothing: it looks for any foreign key of the table.
\<close>

theorem foreign_key_on_other_column_accepted:
  "[k \<leftarrow> is_key_column_usage ex_fk_catalog. kcu_column_name k = ''district_id''] = []
   \<and> fk_issues ex_fk_catalog = []
   \<and> invalid_tables ex_fk_catalog = []"
  by code_simp

section \<open>Attribute folding\<close>

text \<open>
  C4: the attributes of the two rows of \<open>banks\<close> hold \<open>district\<close> and \<open>neighborhood\<close>
  beside \<open>street\<close>, though both are fields of the canonical record.
\<close>

theorem attributes_keep_district_and_neighborhood:
  "(case run ex_gis 1 (ex_store ex_bank_catalog [(''banks'', ex_bank_rows)]) of
      (e, s) \<Rightarrow> (e, map_option (map (\<lambda>u. (district u, neighborhood u, attributes u))) (unified_pois s)))
   = (None,
      Some [(Some ''Mitte'', Some ''Tiergarten'',
             JObject [(''district'', JString ''Mitte''), (''neighborhood'', JString ''Tiergarten''),
                      (''street'', JString ''Main St'')]),
            (Some ''Mitte'', Some ''Tiergarten'',
             JObject [(''district'', JString ''Mitte''), (''neighborhood'', JString ''Tiergarten''),
                      (''street'', JString ''Side St'')])])"
  by code_simp

section \<open>The unit of work\<close>

text \<open>
  C9: a run either raises and leaves the store as it was, or it commits all of: the
  exclusion log of this validation, the canonical rows of the insert query as the table
  stores them, and a ledger that lists the merged tables with the date of the run.
\<close>

theorem run_atomic:
  "(\<exists>e. run gis now s = (Some e, s))
   \<or> (\<exists>s' aps stored rows. run gis now s = (None, s')
        \<and> excluded_tables_log s' = Some (exclusion_log now (catalog s))
        \<and> all_pois gis s (eligible_tables (catalog s)) = Inr aps
        \<and> stored_rows gis aps = Inr stored
        \<and> unified_pois s' = Some stored
        \<and> processed_tables_log s' = Some rows
        \<and> set (map p_table_name rows) = set (eligible_tables (catalog s))
        \<and> set (map processed_date rows) \<subseteq> {now})"
proof (cases "statements gis now s")
  case (Inl e)
  then have "run gis now s = (Some e, s)" by (simp add: run_def engine_begin_def)
  then show ?thesis by blast
next
  case (Inr s')
  then have "run gis now s = (None, s')" by (simp add: run_def engine_begin_def)
  with statements_Inr(2,3,4) [OF Inr] show ?thesis by blast
qed

lemma ex_unparseable_fails: "fst (run ex_gis 2 ex_unparseable) = Some InvalidGeometry"
proof -
  have c: "catalog ex_unparseable = ex_catalog2"
    by (simp add: ex_unparseable_def ex_listing_store_def ex_store_def)
  have "all_pois ex_gis ex_unparseable [''banks'', ''long_term_listings''] = Inl InvalidGeometry"
    by code_simp
  then show ?thesis
    by (simp add: run_error c ex_catalog2_eligible)
qed

theorem run_atomic_witness:
  "run ex_gis 2 ex_unparseable = (Some InvalidGeometry, ex_unparseable)
   \<and> processed_tables_log (snd (run ex_gis 2 ex_unparseable))
       = Some [\<lparr>p_table_name = ''banks'', processed_date = 0\<rparr>]"
proof -
  from run_atomic [of ex_gis 2 ex_unparseable] ex_unparseable_fails
  have "run ex_gis 2 ex_unparseable = (Some InvalidGeometry, ex_unparseable)"
    by auto
  then show ?thesis by (simp add: ex_unparseable_def)
qed

section \<open>Identifiers\<close>

text \<open>
  Two banks whose \<open>id\<close>s differ by a space at the end, the 51st character of the
  \<open>poi_id\<close>: the \<open>id\<close> column of each table is unique and the insert query selects
  three distinct \<open>poi_id\<close>s, but \<^verbatim>\<open>VARCHAR(50)\<close> stores the first two as the same 50
  characters, and the run ends in a primary key violation.
\<close>

theorem poi_id_cut_counterexample:
  "id_column_unique (ex_listing_store ex_long_id_rows (Some ''POINT(0 0)'')) ''banks''
   \<and> id_column_unique (ex_listing_store ex_long_id_rows (Some ''POINT(0 0)'')) ''long_term_listings''
   \<and> eligible_tables (catalog (ex_listing_store ex_long_id_rows (Some ''POINT(0 0)'')))
       = [''banks'', ''long_term_listings'']
   \<and> map length (map poi_id (ex_pois ex_long_id_rows (Some ''POINT(0 0)''))) = [50, 51, 6]
   \<and> distinct (map poi_id (ex_pois ex_long_id_rows (Some ''POINT(0 0)'')))
   \<and> map length (map poi_id (ex_stored ex_long_id_rows (Some ''POINT(0 0)''))) = [50, 50, 6]
   \<and> run ex_gis 1 (ex_listing_store ex_long_id_rows (Some ''POINT(0 0)''))
       = (Some UniqueViolation, ex_listing_store ex_long_id_rows (Some ''POINT(0 0)''))"
proof -
  let ?s = "ex_listing_store ex_long_id_rows (Some ''POINT(0 0)'')"
  have c: "catalog ?s = ex_catalog2"
    by (simp add: ex_listing_store_def ex_store_def)
  have ids: "id_column_unique ?s ''banks''" "id_column_unique ?s ''long_term_listings''"
    by code_simp+
  have ev: "\<not> isl (all_pois ex_gis ?s [''banks'', ''long_term_listings''])"
    "\<not> isl (stored_rows ex_gis (ex_pois ex_long_id_rows (Some ''POINT(0 0)'')))"
    "\<not> distinct (map poi_id (ex_stored ex_long_id_rows (Some ''POINT(0 0)'')))"
    by code_simp+
  have len: "map length (map poi_id (ex_pois ex_long_id_rows (Some ''POINT(0 0)''))) = [50, 51, 6]"
    "distinct (map poi_id (ex_pois ex_long_id_rows (Some ''POINT(0 0)'')))"
    "map length (map poi_id (ex_stored ex_long_id_rows (Some ''POINT(0 0)''))) = [50, 50, 6]"
    by code_simp+
  have ne: "eligible_tables (catalog ?s) \<noteq> []"
    by (simp add: c ex_catalog2_eligible)
  have ap: "all_pois ex_gis ?s (eligible_tables (catalog ?s))
      = Inr (ex_pois ex_long_id_rows (Some ''POINT(0 0)''))"
    using ev(1) by (simp add: c ex_catalog2_eligible ex_pois_def)
  have st: "stored_rows ex_gis (ex_pois ex_long_id_rows (Some ''POINT(0 0)''))
      = Inr (ex_stored ex_long_id_rows (Some ''POINT(0 0)''))"
    using ev(2) by (simp add: ex_stored_def)
  have "run ex_gis 1 ?s = (Some UniqueViolation, ?s)"
    using ap st ev(3) ne by (rule run_unique_violation)
  with ids len show ?thesis
    by (simp add: c ex_catalog2_eligible)
qed

text \<open>
  C10, as amended: the four-character prefixes of the allow-list are pairwise distinct, so
  two rows of different layers have distinct \<open>poi_id\<close>s, as the insert query selects
  them and as \<open>unified_pois\<close> stores them, whatever the \<open>id\<close>s are. Where the names of
  the tables of the schema are distinct, the \<open>id\<close> column of every merged table is
  unique and no \<open>poi_id\<close> is cut by the width of the column, the run does not end in a
  primary key violation.
\<close>

theorem poi_id_prefixes_distinct:
  "distinct (map (take 4) allow_list)
   \<and> (\<forall>aps. all_pois gis s (eligible_tables (catalog s)) = Inr aps \<longrightarrow>
         (\<forall>p \<in> set aps. \<forall>q \<in> set aps. layer p \<noteq> layer q \<longrightarrow> poi_id p \<noteq> poi_id q)
         \<and> (\<forall>rows. stored_rows gis aps = Inr rows \<longrightarrow>
               (\<forall>u \<in> set rows. \<forall>v \<in> set rows. layer u \<noteq> layer v \<longrightarrow> poi_id u \<noteq> poi_id v)))
   \<and> (distinct [t_table_name t. t \<leftarrow> is_tables (catalog s), t_table_schema t = schema]
       \<and> (\<forall>t \<in> set (eligible_tables (catalog s)).
             id_column_unique s t
             \<and> (\<forall>i \<in> set (source_ids s t). \<not> cut_by_varchar 50 (concat_poi_id t i)))
       \<longrightarrow> fst (run gis now s) \<noteq> Some UniqueViolation)"
proof (intro conjI allI impI ballI)
  show "distinct (map (take 4) allow_list)"
    by (simp add: allow_list_prefixes)
next
  fix aps p q
  assume aps: "all_pois gis s (eligible_tables (catalog s)) = Inr aps"
    and pq: "p \<in> set aps" "q \<in> set aps" "layer p \<noteq> layer q"
  from all_pois_layers [OF aps pq(1)] all_pois_layers [OF aps pq(2)] obtain i j where
    "layer p \<in> set allow_list" "poi_id p = concat_poi_id (layer p) i"
    "layer q \<in> set allow_list" "poi_id q = concat_poi_id (layer q) j"
    by (blast intro: eligible_tables_allowed)
  with pq(3) show "poi_id p \<noteq> poi_id q"
    by (auto dest: concat_poi_id_eq)
next
  fix aps rows u v
  assume aps: "all_pois gis s (eligible_tables (catalog s)) = Inr aps"
    and rows: "stored_rows gis aps = Inr rows"
    and uv: "u \<in> set rows" "v \<in> set rows" "layer u \<noteq> layer v"
  have sub: "set (eligible_tables (catalog s)) \<subseteq> set allow_list"
    by (auto intro: eligible_tables_allowed)
  note U = stored_row_source [OF aps rows sub uv(1)]
  note V = stored_row_source [OF aps rows sub uv(2)]
  show "poi_id u \<noteq> poi_id v"
  proof
    assume "poi_id u = poi_id v"
    with U(2) V(2) have "take 4 (layer u) = take 4 (layer v)" by simp
    with U(1) V(1) have "layer u = layer v" by (rule allow_list_prefix_inj)
    with uv(3) show False by simp
  qed
next
  assume a: "distinct [t_table_name t. t \<leftarrow> is_tables (catalog s), t_table_schema t = schema]
    \<and> (\<forall>t \<in> set (eligible_tables (catalog s)).
          id_column_unique s t
          \<and> (\<forall>i \<in> set (source_ids s t). \<not> cut_by_varchar 50 (concat_poi_id t i)))"
  then have names: "distinct [t_table_name t. t \<leftarrow> is_tables (catalog s), t_table_schema t = schema]"
    and ids: "\<forall>t \<in> set (eligible_tables (catalog s)). id_column_unique s t"
    and cut: "\<forall>t \<in> set (eligible_tables (catalog s)).
        \<forall>i \<in> set (source_ids s t). \<not> cut_by_varchar 50 (concat_poi_id t i)"
    by simp_all
  show "fst (run gis now s) \<noteq> Some UniqueViolation"
  proof (cases "eligible_tables (catalog s) = []")
    case True
    then show ?thesis by (simp add: run_def engine_begin_def statements_cases)
  next
    case False
    show ?thesis
    proof (cases "all_pois gis s (eligible_tables (catalog s))")
      case (Inl e)
      with all_pois_Inl [OF Inl] False show ?thesis by (auto simp: run_error)
    next
      case (Inr aps)
      have d: "distinct (map poi_id aps)" by (rule poi_ids_distinct [OF names ids Inr])
      show ?thesis
      proof (cases "stored_rows gis aps")
        case (Inl e)
        from run_not_stored [OF Inr Inl False] stored_rows_Inl [OF Inl] show ?thesis by simp
      next
        case (Inr rows)
        from stored_poi_ids_not_cut [OF \<open>all_pois gis s (eligible_tables (catalog s)) = Inr aps\<close> Inr cut] d
        have "distinct (map poi_id rows)" by simp
        from run_result(1) [OF False \<open>all_pois gis s (eligible_tables (catalog s)) = Inr aps\<close> Inr this]
        show ?thesis by simp
      qed
    qed
  qed
qed

theorem poi_id_prefixes_distinct_witness:
  "distinct [t_table_name t. t \<leftarrow> is_tables (catalog ex_listing), t_table_schema t = schema]
   \<and> id_column_unique ex_listing ''banks'' \<and> id_column_unique ex_listing ''long_term_listings''
   \<and> map (\<lambda>u. (layer u, poi_id u)) (ex_stored ex_bank_rows (Some ''POINT(0 0)''))
       = [(''banks'', ''bank-1''), (''banks'', ''bank-2''), (''long_term_listings'', ''long-7'')]
   \<and> poi_id (ex_stored ex_bank_rows (Some ''POINT(0 0)'') ! 0)
       \<noteq> poi_id (ex_stored ex_bank_rows (Some ''POINT(0 0)'') ! 2)
   \<and> fst (run ex_gis 1 ex_listing) \<noteq> Some UniqueViolation"
proof -
  let ?rows = "ex_stored ex_bank_rows (Some ''POINT(0 0)'')"
  have h1: "distinct [t_table_name t. t \<leftarrow> is_tables (catalog ex_listing), t_table_schema t = schema]"
    by (simp only: ex_listing_catalog ex_catalog2_names)
  have h2: "id_column_unique ex_listing ''banks''" "id_column_unique ex_listing ''long_term_listings''"
    by code_simp+
  have h3: "\<forall>i \<in> set (source_ids ex_listing ''banks''). \<not> cut_by_varchar 50 (concat_poi_id ''banks'' i)"
    "\<forall>i \<in> set (source_ids ex_listing ''long_term_listings'').
        \<not> cut_by_varchar 50 (concat_poi_id ''long_term_listings'' i)"
    by code_simp+
  note ap = ex_listing_pois(1) and st = ex_listing_pois(2)
  have ev: "map (\<lambda>u. (layer u, poi_id u)) ?rows
      = [(''banks'', ''bank-1''), (''banks'', ''bank-2''), (''long_term_listings'', ''long-7'')]"
    by code_simp
  then have "length ?rows = 3" "layer (?rows ! 0) = ''banks''"
    "layer (?rows ! 2) = ''long_term_listings''"
    by (auto simp: map_eq_Cons_conv)
  then have m: "?rows ! 0 \<in> set ?rows" "?rows ! 2 \<in> set ?rows" "layer (?rows ! 0) \<noteq> layer (?rows ! 2)"
    by simp_all
  from h1 h2 h3 have h: "distinct [t_table_name t. t \<leftarrow> is_tables (catalog ex_listing), t_table_schema t = schema]
      \<and> (\<forall>t \<in> set (eligible_tables (catalog ex_listing)).
            id_column_unique ex_listing t
            \<and> (\<forall>i \<in> set (source_ids ex_listing t). \<not> cut_by_varchar 50 (concat_poi_id t i)))"
    by (simp add: ex_listing_catalog ex_catalog2_eligible)
  from poi_id_prefixes_distinct [of ex_gis ex_listing 1] ap st m h
  have "poi_id (?rows ! 0) \<noteq> poi_id (?rows ! 2)" "fst (run ex_gis 1 ex_listing) \<noteq> Some UniqueViolation"
    by blast+
  with h1 h2 ev show ?thesis by blast
qed

section \<open>Running twice\<close>

text \<open>
  The ledger after the first run lists \<open>banks\<close> with the date of that run; after the
  second run that entry is gone and \<open>banks\<close> is listed with the date of the second run:
  the second run dropped the ledger and merged the table again.
\<close>

theorem ledger_recreated_counterexample:
  "is_processed (snd (run ex_gis 1 ex_listing)) ''banks''
   \<and> \<lparr>p_table_name = ''banks'', processed_date = 1\<rparr> \<in> set (ledger (snd (run ex_gis 1 ex_listing)))
   \<and> \<lparr>p_table_name = ''banks'', processed_date = 1\<rparr>
       \<notin> set (ledger (snd (run ex_gis 2 (snd (run ex_gis 1 ex_listing)))))
   \<and> \<lparr>p_table_name = ''banks'', processed_date = 2\<rparr>
       \<in> set (ledger (snd (run ex_gis 2 (snd (run ex_gis 1 ex_listing)))))"
proof -
  let ?s1 = "snd (run ex_gis 1 ex_listing)"
  from ex_listing_run(5) [of 1] obtain rows1 where
    r1: "processed_tables_log ?s1 = Some rows1"
      "set (map p_table_name rows1) = {''banks'', ''long_term_listings''}"
      "set (map processed_date rows1) \<subseteq> {1}" by blast
  have ne: "eligible_tables (catalog ?s1) \<noteq> []"
    by (simp add: ex_listing_run(3) ex_catalog2_eligible)
  have ap: "all_pois ex_gis ?s1 (eligible_tables (catalog ?s1))
      = Inr (ex_pois ex_bank_rows (Some ''POINT(0 0)''))"
    using ex_listing_pois(1)
      all_pois_cong [of ?s1 ex_listing ex_gis "[''banks'', ''long_term_listings'']"]
    by (simp add: ex_listing_run(3,4) ex_listing_catalog ex_catalog2_eligible)
  note st = ex_listing_pois(2)
  from run_result(4) [OF ne ap st ex_listing_evaluated(3), of 2] obtain rows2 where
    r2: "processed_tables_log (snd (run ex_gis 2 ?s1)) = Some rows2"
      "set (map p_table_name rows2) = {''banks'', ''long_term_listings''}"
      "set (map processed_date rows2) \<subseteq> {2}"
    by (auto simp: ex_listing_run(3) ex_catalog2_eligible)
  have "is_processed ?s1 ''banks''"
    using r1 by (simp add: is_processed_def)
  moreover have "\<lparr>p_table_name = ''banks'', processed_date = 1\<rparr> \<in> set (ledger ?s1)"
    unfolding ledger_row [OF r1] by simp
  moreover have "\<lparr>p_table_name = ''banks'', processed_date = 1\<rparr>
      \<notin> set (ledger (snd (run ex_gis 2 ?s1)))"
    unfolding ledger_row [OF r2] by simp
  moreover have "\<lparr>p_table_name = ''banks'', processed_date = 2\<rparr>
      \<in> set (ledger (snd (run ex_gis 2 ?s1)))"
    unfolding ledger_row [OF r2] by simp
  ultimately show ?thesis by blast
qed

text \<open>
  C1, as amended: when a run succeeds, a second run on the store it leaves succeeds too; it
  does not consult the ledger but recreates the canonical table and the ledger, so the
  canonical table holds the same rows after both runs, one for each source row of every
  merged table (its \<open>poi_id\<close> being the prefixed \<open>id\<close> of the source row as
  \<^verbatim>\<open>VARCHAR(50)\<close> stores it), the ledger lists every merged table after each run, and
  every entry of the ledger carries the date of the second run.
\<close>

theorem rerun_recreates_tables:
  assumes "run gis t1 s = (None, s1)"
    and "distinct [t_table_name t. t \<leftarrow> is_tables (catalog s), t_table_schema t = schema]"
  shows "\<exists>s2 rows rows2. run gis t2 s1 = (None, s2)
      \<and> unified_pois s1 = Some rows \<and> unified_pois s2 = Some rows
      \<and> processed_tables_log s2 = Some rows2 \<and> set (map processed_date rows2) \<subseteq> {t2}
      \<and> (\<forall>tn \<in> set (eligible_tables (catalog s)).
           is_processed s1 tn \<and> is_processed s2 tn
           \<and> map (\<lambda>u. Inr (poi_id u)) [u \<leftarrow> rows. layer u = tn]
               = map (\<lambda>i. assign_varchar 50 (concat_poi_id tn i)) (source_ids s tn))"
proof -
  let ?nt = "eligible_tables (catalog s)"
  from assms(1) have st: "statements gis t1 s = Inr s1"
    by (auto simp: run_def engine_begin_def split: sum.splits)
  note A = statements_Inr [OF st]
  from A(2) obtain aps rows where aps: "all_pois gis s ?nt = Inr aps"
    and rows: "stored_rows gis aps = Inr rows" "distinct (map poi_id rows)"
    and u1: "unified_pois s1 = Some rows" by blast
  from A(4) obtain rows1 where l1: "processed_tables_log s1 = Some rows1"
    "set (map p_table_name rows1) = set ?nt" by blast
  have ne: "eligible_tables (catalog s1) \<noteq> []" using A(1,5) by simp
  have aps1: "all_pois gis s1 (eligible_tables (catalog s1)) = Inr aps"
    using aps A(5,6) all_pois_cong [of s1 s gis ?nt] by simp
  note R = run_result [OF ne aps1 rows, of t2]
  from R(4) obtain rows2 where l2: "processed_tables_log (snd (run gis t2 s1)) = Some rows2"
    "set (map p_table_name rows2) = set ?nt" "set (map processed_date rows2) \<subseteq> {t2}"
    using A(5) by auto
  have dn: "distinct ?nt" using assms(2) by (rule eligible_tables_distinct)
  have sub: "set ?nt \<subseteq> set allow_list"
    by (auto intro: eligible_tables_allowed)
  have "run gis t2 s1 = (None, snd (run gis t2 s1))"
    using R(1) by (simp add: prod_eq_iff)
  moreover have "\<forall>tn \<in> set ?nt. is_processed s1 tn \<and> is_processed (snd (run gis t2 s1)) tn
      \<and> map (\<lambda>u. Inr (poi_id u)) [u \<leftarrow> rows. layer u = tn]
          = map (\<lambda>i. assign_varchar 50 (concat_poi_id tn i)) (source_ids s tn)"
    using l1 l2 stored_rows_of_layer [OF aps rows(1) dn _ sub]
    by (simp add: is_processed_def)
  ultimately show ?thesis
    using u1 R(2) l2 by blast
qed

theorem rerun_recreates_tables_witness:
  "fst (run ex_gis 1 ex_listing) = None
   \<and> (\<exists>s2 rows rows2. run ex_gis 2 (snd (run ex_gis 1 ex_listing)) = (None, s2)
      \<and> unified_pois (snd (run ex_gis 1 ex_listing)) = Some rows \<and> unified_pois s2 = Some rows
      \<and> processed_tables_log s2 = Some rows2 \<and> set (map processed_date rows2) \<subseteq> {2}
      \<and> (\<forall>tn \<in> set (eligible_tables (catalog ex_listing)).
           is_processed (snd (run ex_gis 1 ex_listing)) tn \<and> is_processed s2 tn
           \<and> map (\<lambda>u. Inr (poi_id u)) [u \<leftarrow> rows. layer u = tn]
               = map (\<lambda>i. assign_varchar 50 (concat_poi_id tn i)) (source_ids ex_listing tn)))"
proof -
  have h1: "run ex_gis 1 ex_listing = (None, snd (run ex_gis 1 ex_listing))"
    using ex_listing_run(1) [of 1] by (simp add: prod_eq_iff)
  have h2: "distinct [t_table_name t. t \<leftarrow> is_tables (catalog ex_listing), t_table_schema t = schema]"
    by (simp only: ex_listing_catalog ex_catalog2_names)
  from rerun_recreates_tables [OF h1 h2, of 2] ex_listing_run(1) [of 1] show ?thesis
    by simp
qed

section \<open>The nearest record of a layer\<close>

text \<open>
  Two banks at the same distance from the listing: the entry names the one the store reads
  first, so the same two rows in the other order give the other \<open>id\<close>. And a layer
  whose only member has no geometry still gets an entry, with a null distance.
\<close>

theorem nearest_tie_and_null_counterexample:
  "set ex_tie_rows = set (rev ex_tie_rows)
   \<and> map_option (\<lambda>e. (json_get e ''id'', json_get e ''distance''))
       (nearest_entry (snd (run ex_gis 1 (ex_listing_store ex_tie_rows (Some ''POINT(0 0)''))))
          ''long-7'' ''banks'')
     = Some (Some (JString ''bank-1''), Some (JNumber 3))
   \<and> map_option (\<lambda>e. (json_get e ''id'', json_get e ''distance''))
       (nearest_entry (snd (run ex_gis 1 (ex_listing_store (rev ex_tie_rows) (Some ''POINT(0 0)''))))
          ''long-7'' ''banks'')
     = Some (Some (JString ''bank-2''), Some (JNumber 3))
   \<and> map_option (\<lambda>e. (json_get e ''id'', json_get e ''distance''))
       (nearest_entry (snd (run ex_gis 1 (ex_listing_store ex_null_rows (Some ''POINT(0 0)''))))
          ''long-7'' ''banks'')
     = Some (Some (JString ''bank-1''), Some JNull)"
proof -
  have a: "\<not> isl (all_pois ex_gis (ex_listing_store ex_tie_rows (Some ''POINT(0 0)''))
      [''banks'', ''long_term_listings''])"
    "\<not> isl (stored_rows ex_gis (ex_pois ex_tie_rows (Some ''POINT(0 0)'')))"
    "distinct (map poi_id (ex_stored ex_tie_rows (Some ''POINT(0 0)'')))"
    "map_option (\<lambda>e. (json_get e ''id'', json_get e ''distance''))
       (nearest_in (ex_stored ex_tie_rows (Some ''POINT(0 0)'')) ''long-7'' ''banks'')
     = Some (Some (JString ''bank-1''), Some (JNumber 3))"
    by code_simp+
  have b: "\<not> isl (all_pois ex_gis (ex_listing_store (rev ex_tie_rows) (Some ''POINT(0 0)''))
      [''banks'', ''long_term_listings''])"
    "\<not> isl (stored_rows ex_gis (ex_pois (rev ex_tie_rows) (Some ''POINT(0 0)'')))"
    "distinct (map poi_id (ex_stored (rev ex_tie_rows) (Some ''POINT(0 0)'')))"
    "map_option (\<lambda>e. (json_get e ''id'', json_get e ''distance''))
       (nearest_in (ex_stored (rev ex_tie_rows) (Some ''POINT(0 0)'')) ''long-7'' ''banks'')
     = Some (Some (JString ''bank-2''), Some (JNumber 3))"
    by code_simp+
  have c: "\<not> isl (all_pois ex_gis (ex_listing_store ex_null_rows (Some ''POINT(0 0)''))
      [''banks'', ''long_term_listings''])"
    "\<not> isl (stored_rows ex_gis (ex_pois ex_null_rows (Some ''POINT(0 0)'')))"
    "distinct (map poi_id (ex_stored ex_null_rows (Some ''POINT(0 0)'')))"
    "map_option (\<lambda>e. (json_get e ''id'', json_get e ''distance''))
       (nearest_in (ex_stored ex_null_rows (Some ''POINT(0 0)'')) ''long-7'' ''banks'')
     = Some (Some (JString ''bank-1''), Some JNull)"
    by code_simp+
  have "set ex_tie_rows = set (rev ex_tie_rows)" by simp
  then show ?thesis
    by (simp only: ex_listing_store_result(3) [OF a(1,2,3)] a(4)
        ex_listing_store_result(3) [OF b(1,2,3)] b(4)
        ex_listing_store_result(3) [OF c(1,2,3)] c(4) simp_thms)
qed

text \<open>
  C2, as amended: for a record of the query layer with a geometry, and a candidate layer
  that has a member with a geometry, the entry of the layer in \<open>nearest_pois\<close> holds the
  \<open>id\<close> of a member with a geometry and its distance, and no member of the layer with a
  geometry is nearer. Which of several members at that distance is named is left to the
  order of the rows.
\<close>

theorem nearest_is_minimum:
  assumes "u \<in> set (pois_with_nearest gis aps)"
    and "layer u = ''long_term_listings''"
    and "geometry u = Some q"
    and "l \<noteq> ''long_term_listings''"
    and "\<exists>p \<in> set aps. layer p = l \<and> geometry p \<noteq> None"
  shows "\<exists>np entry p g. nearest_pois u = Some np \<and> json_get np l = Some entry
      \<and> p \<in> set aps \<and> layer p = l \<and> geometry p = Some g
      \<and> json_get entry ''id'' = Some (JString (poi_id p))
      \<and> json_get entry ''distance'' = Some (JNumber (ST_Distance gis q g))
      \<and> (\<forall>p' \<in> set aps. \<forall>g'. layer p' = l \<and> geometry p' = Some g'
            \<longrightarrow> ST_Distance gis q g \<le> ST_Distance gis q g')"
proof -
  from pois_with_nearest_row [OF assms(1)] assms(2,3) obtain ap where
    ap: "layer ap = ''long_term_listings''" "geometry ap = Some q"
      "nearest_pois u = jsonb_object_agg (layer_nearest gis aps ap)" by auto
  from assms(4,5) have l: "l \<in> set (unique_layers aps)"
    by (auto simp: unique_layers_iff)
  from query_row_entry [OF ap(1) l, of gis] obtain p kvs where
    p: "p \<in> set aps" "layer p = l"
      "\<forall>x \<in> set aps. layer x = l \<longrightarrow>
          nulls_last_le (sql_distance gis (geometry ap) (geometry p))
            (sql_distance gis (geometry ap) (geometry x))"
    and agg: "jsonb_object_agg (layer_nearest gis aps ap) = Some (JObject kvs)"
      "map_of kvs l = Some (jsonb_build_object gis ap p)" by blast
  from assms(5) obtain p0 g0 where p0: "p0 \<in> set aps" "layer p0 = l" "geometry p0 = Some g0"
    by auto
  with p(3) ap(2) have "nulls_last_le (sql_distance gis (Some q) (geometry p)) (Some (ST_Distance gis q g0))"
    by (force simp: sql_distance_def)
  then obtain g where g: "geometry p = Some g"
    by (cases "geometry p") (auto simp: sql_distance_def nulls_last_le_Some)
  have least: "\<forall>p' \<in> set aps. \<forall>g'. layer p' = l \<and> geometry p' = Some g'
      \<longrightarrow> ST_Distance gis q g \<le> ST_Distance gis q g'"
  proof (intro ballI allI impI)
    fix p' g' assume "p' \<in> set aps" "layer p' = l \<and> geometry p' = Some g'"
    with p(3) ap(2) g show "ST_Distance gis q g \<le> ST_Distance gis q g'"
      by (force simp: sql_distance_def)
  qed
  have "json_get (jsonb_build_object gis ap p) ''distance'' = Some (JNumber (ST_Distance gis q g))"
    using ap(2) g by (simp add: jsonb_build_object_members sql_distance_def)
  with ap(3) agg p(1,2) g least show ?thesis
    by (auto simp: jsonb_build_object_members(1))
qed

theorem nearest_is_minimum_witness:
  "\<exists>np entry p g.
      nearest_pois (pois_with_nearest ex_gis (ex_pois ex_bank_rows (Some ''POINT(0 0)'')) ! 2) = Some np
      \<and> json_get np ''banks'' = Some entry
      \<and> p \<in> set (ex_pois ex_bank_rows (Some ''POINT(0 0)'')) \<and> layer p = ''banks''
      \<and> geometry p = Some g
      \<and> json_get entry ''id'' = Some (JString (poi_id p))
      \<and> json_get entry ''distance'' = Some (JNumber (ST_Distance ex_gis 0 g))
      \<and> (\<forall>p' \<in> set (ex_pois ex_bank_rows (Some ''POINT(0 0)'')). \<forall>g'.
            layer p' = ''banks'' \<and> geometry p' = Some g'
            \<longrightarrow> ST_Distance ex_gis 0 g \<le> ST_Distance ex_gis 0 g')"
proof -
  let ?aps = "ex_pois ex_bank_rows (Some ''POINT(0 0)'')"
  let ?u = "pois_with_nearest ex_gis ?aps ! 2"
  have h1: "?u \<in> set (pois_with_nearest ex_gis ?aps)"
    by code_simp
  have h2: "layer ?u = ''long_term_listings''"
    by code_simp
  have h3: "geometry ?u = Some 0"
    by code_simp
  have h4: "''banks'' \<noteq> ''long_term_listings''"
    by simp
  have h5: "\<exists>p \<in> set ?aps. layer p = ''banks'' \<and> geometry p \<noteq> None"
    by code_simp
  from nearest_is_minimum [OF h1 h2 h3 h4 h5] show ?thesis .
qed

section \<open>Rows without a usable geometry\<close>

text \<open>
  A bank without a geometry is the nearest record of its layer for the listing; a listing
  without a geometry gets a \<open>nearest_pois\<close> entry all the same; and a listing whose
  geometry text does not parse makes the run fail.
\<close>

theorem null_geometry_counterexample:
  "map_option (map (\<lambda>u. (poi_id u, geometry u)))
     (unified_pois (snd (run ex_gis 1 (ex_listing_store ex_null_rows (Some ''POINT(0 0)'')))))
     = Some [(''bank-1'', None), (''long-7'', Some 0)]
   \<and> map_option (\<lambda>e. (json_get e ''id'', json_get e ''distance''))
       (nearest_entry (snd (run ex_gis 1 (ex_listing_store ex_null_rows (Some ''POINT(0 0)''))))
          ''long-7'' ''banks'')
     = Some (Some (JString ''bank-1''), Some JNull)
   \<and> map_option (map (\<lambda>u. (poi_id u, geometry u)))
       (unified_pois (snd (run ex_gis 1 (ex_listing_store ex_bank_rows None))))
     = Some [(''bank-1'', Some 5), (''bank-2'', Some 3), (''long-7'', None)]
   \<and> map_option (\<lambda>e. (json_get e ''id'', json_get e ''distance''))
       (nearest_entry (snd (run ex_gis 1 (ex_listing_store ex_bank_rows None))) ''long-7'' ''banks'')
     = Some (Some (JString ''bank-1''), Some JNull)
   \<and> run ex_gis 2 ex_unparseable = (Some InvalidGeometry, ex_unparseable)"
proof -
  have a: "\<not> isl (all_pois ex_gis (ex_listing_store ex_null_rows (Some ''POINT(0 0)''))
      [''banks'', ''long_term_listings''])"
    "\<not> isl (stored_rows ex_gis (ex_pois ex_null_rows (Some ''POINT(0 0)'')))"
    "distinct (map poi_id (ex_stored ex_null_rows (Some ''POINT(0 0)'')))"
    "map_option (\<lambda>e. (json_get e ''id'', json_get e ''distance''))
       (nearest_in (ex_stored ex_null_rows (Some ''POINT(0 0)'')) ''long-7'' ''banks'')
     = Some (Some (JString ''bank-1''), Some JNull)"
    "map (\<lambda>u. (poi_id u, geometry u)) (ex_stored ex_null_rows (Some ''POINT(0 0)''))
     = [(''bank-1'', None), (''long-7'', Some 0)]"
    by code_simp+
  have b: "\<not> isl (all_pois ex_gis (ex_listing_store ex_bank_rows None)
      [''banks'', ''long_term_listings''])"
    "\<not> isl (stored_rows ex_gis (ex_pois ex_bank_rows None))"
    "distinct (map poi_id (ex_stored ex_bank_rows None))"
    "map_option (\<lambda>e. (json_get e ''id'', json_get e ''distance''))
       (nearest_in (ex_stored ex_bank_rows None) ''long-7'' ''banks'')
     = Some (Some (JString ''bank-1''), Some JNull)"
    "map (\<lambda>u. (poi_id u, geometry u)) (ex_stored ex_bank_rows None)
     = [(''bank-1'', Some 5), (''bank-2'', Some 3), (''long-7'', None)]"
    by code_simp+
  have c: "run ex_gis 2 ex_unparseable = (Some InvalidGeometry, ex_unparseable)"
  proof -
    have "catalog ex_unparseable = ex_catalog2"
      by (simp add: ex_unparseable_def ex_listing_store_def ex_store_def)
    moreover have "all_pois ex_gis ex_unparseable [''banks'', ''long_term_listings'']
        = Inl InvalidGeometry"
      by code_simp
    ultimately show ?thesis
      by (simp add: run_error ex_catalog2_eligible)
  qed
  show ?thesis
    by (simp only: ex_listing_store_result(2) [OF a(1,2,3)] ex_listing_store_result(3) [OF a(1,2,3)]
        a(4,5) ex_listing_store_result(2) [OF b(1,2,3)] ex_listing_store_result(3) [OF b(1,2,3)]
        b(4,5) c option.map simp_thms)
qed

text \<open>
  C8, as amended: each SELECT of the union yields one record for each source row, and the
  record of a row with a NULL geometry has a NULL geometry; such a record is the nearest
  one of its layer only when the query record has no geometry or no member of the layer
  has one; a record of the query layer without a geometry receives an entry for every
  candidate layer, with a null distance; and a row of a merged table whose geometry text
  does not parse makes the run raise and leave the store as it was.
\<close>

theorem null_geometry_rows:
  "(\<forall>part. union_query gis s tn = Inr part \<longrightarrow>
      list_all2 (\<lambda>r p. field (table_columns (catalog s) tn) r ''geometry'' = None \<longrightarrow> geometry p = None)
        (berlin_source_data s tn) part)
   \<and> (\<forall>p. nearest_row gis aps ap l = Some p \<and> geometry p = None \<longrightarrow>
         geometry ap = None \<or> (\<forall>x \<in> set aps. layer x = l \<longrightarrow> geometry x = None))
   \<and> (\<forall>u \<in> set (pois_with_nearest gis aps).
         layer u = ''long_term_listings'' \<and> geometry u = None \<and> l \<in> set (unique_layers aps) \<longrightarrow>
         (\<exists>np entry. nearest_pois u = Some np \<and> json_get np l = Some entry
            \<and> json_get entry ''distance'' = Some JNull))
   \<and> (\<forall>r w. tn \<in> set (eligible_tables (catalog s)) \<and> r \<in> set (berlin_source_data s tn)
         \<and> field (table_columns (catalog s) tn) r ''geometry'' = Some w
         \<and> ST_GeomFromEWKT gis w = None \<longrightarrow>
         (\<exists>e. run gis now s = (Some e, s)))"
proof (intro conjI allI impI ballI)
  fix part assume "union_query gis s tn = Inr part"
  from union_query_Inr [OF this]
  show "list_all2 (\<lambda>r p. field (table_columns (catalog s) tn) r ''geometry'' = None \<longrightarrow> geometry p = None)
      (berlin_source_data s tn) part"
    by (rule map_Inr_list_all2) (simp add: select_row_null_geometry)
next
  fix p assume a: "nearest_row gis aps ap l = Some p \<and> geometry p = None"
  let ?key = "\<lambda>p. sql_distance gis (geometry ap) (geometry p)"
  from a have "order_by_limit_1 ?key [p \<leftarrow> aps. layer p = l] = Some p"
    by (simp add: nearest_row_def)
  from order_by_limit_1_least [OF this] a
  have "\<forall>x \<in> set aps. layer x = l \<longrightarrow> ?key x = None"
    by (auto simp: sql_distance_def nulls_last_le_None split: option.splits)
  then show "geometry ap = None \<or> (\<forall>x \<in> set aps. layer x = l \<longrightarrow> geometry x = None)"
    by (cases "geometry ap") (auto simp: sql_distance_def split: option.splits)
next
  fix u assume u: "u \<in> set (pois_with_nearest gis aps)"
    and a: "layer u = ''long_term_listings'' \<and> geometry u = None \<and> l \<in> set (unique_layers aps)"
  from pois_with_nearest_row [OF u] a obtain ap' where
    ap: "layer ap' = ''long_term_listings''" "geometry ap' = None"
      "nearest_pois u = jsonb_object_agg (layer_nearest gis aps ap')" by auto
  from a have l: "l \<in> set (unique_layers aps)" by simp
  from query_row_entry [OF ap(1) l, of gis] obtain p kvs where
    "jsonb_object_agg (layer_nearest gis aps ap') = Some (JObject kvs)"
    "map_of kvs l = Some (jsonb_build_object gis ap' p)" by blast
  moreover have "json_get (jsonb_build_object gis ap' p) ''distance'' = Some JNull"
    using ap(2) by (simp add: jsonb_build_object_members sql_distance_def)
  ultimately show "\<exists>np entry. nearest_pois u = Some np \<and> json_get np l = Some entry
      \<and> json_get entry ''distance'' = Some JNull"
    using ap(3) by auto
next
  fix r w
  assume a: "tn \<in> set (eligible_tables (catalog s)) \<and> r \<in> set (berlin_source_data s tn)
    \<and> field (table_columns (catalog s) tn) r ''geometry'' = Some w \<and> ST_GeomFromEWKT gis w = None"
  then have "\<exists>e. all_pois gis s (eligible_tables (catalog s)) = Inl e"
    by (intro all_pois_unparseable [of tn _ r s w]) auto
  moreover from a have "eligible_tables (catalog s) \<noteq> []" by auto
  ultimately show "\<exists>e. run gis now s = (Some e, s)"
    by (auto simp: run_error)
qed

theorem null_geometry_rows_witness:
  "list_all2
     (\<lambda>r p. field (table_columns (catalog (ex_listing_store ex_null_rows (Some ''POINT(0 0)''))) ''banks'')
               r ''geometry'' = None \<longrightarrow> geometry p = None)
     (berlin_source_data (ex_listing_store ex_null_rows (Some ''POINT(0 0)'')) ''banks'')
     (projr (union_query ex_gis (ex_listing_store ex_null_rows (Some ''POINT(0 0)'')) ''banks''))
   \<and> (geometry (ex_pois ex_null_rows (Some ''POINT(0 0)'') ! 1) = None
        \<or> (\<forall>x \<in> set (ex_pois ex_null_rows (Some ''POINT(0 0)'')).
              layer x = ''banks'' \<longrightarrow> geometry x = None))
   \<and> (\<exists>np entry.
         nearest_pois (pois_with_nearest ex_gis (ex_pois ex_bank_rows None) ! 2) = Some np
         \<and> json_get np ''banks'' = Some entry
         \<and> json_get entry ''distance'' = Some JNull)
   \<and> (\<exists>e. run ex_gis 2 ex_unparseable = (Some e, ex_unparseable))"
proof -
  let ?s1 = "ex_listing_store ex_null_rows (Some ''POINT(0 0)'')"
  let ?a1 = "ex_pois ex_null_rows (Some ''POINT(0 0)'')"
  let ?a2 = "ex_pois ex_bank_rows None"
  let ?u = "pois_with_nearest ex_gis ?a2 ! 2"
  have "\<not> isl (union_query ex_gis ?s1 ''banks'')"
    by code_simp
  then have h1: "union_query ex_gis ?s1 ''banks'' = Inr (projr (union_query ex_gis ?s1 ''banks''))"
    by simp
  have h2: "nearest_row ex_gis ?a1 (?a1 ! 1) ''banks'' = Some (?a1 ! 0) \<and> geometry (?a1 ! 0) = None"
    by code_simp
  have h3: "?u \<in> set (pois_with_nearest ex_gis ?a2)"
    "layer ?u = ''long_term_listings'' \<and> geometry ?u = None \<and> ''banks'' \<in> set (unique_layers ?a2)"
    by code_simp+
  have cat: "catalog ex_unparseable = ex_catalog2"
    by (simp add: ex_unparseable_def ex_listing_store_def ex_store_def)
  have "ex_row ''7'' ''Flat'' (Some ''POINT 0'') ''Home St''
        \<in> set (berlin_source_data ex_unparseable ''long_term_listings'')"
    "field (table_columns ex_catalog2 ''long_term_listings'')
       (ex_row ''7'' ''Flat'' (Some ''POINT 0'') ''Home St'') ''geometry'' = Some ''POINT 0''"
    "ST_GeomFromEWKT ex_gis ''POINT 0'' = None"
    by code_simp+
  then have h4: "''long_term_listings'' \<in> set (eligible_tables (catalog ex_unparseable))
      \<and> ex_row ''7'' ''Flat'' (Some ''POINT 0'') ''Home St''
          \<in> set (berlin_source_data ex_unparseable ''long_term_listings'')
      \<and> field (table_columns (catalog ex_unparseable) ''long_term_listings'')
          (ex_row ''7'' ''Flat'' (Some ''POINT 0'') ''Home St'') ''geometry'' = Some ''POINT 0''
      \<and> ST_GeomFromEWKT ex_gis ''POINT 0'' = None"
    by (simp add: cat ex_catalog2_eligible)
  from null_geometry_rows [of ex_gis ?s1 "''banks''" ?a1 "?a1 ! 1" "''banks''" 1] h1 h2
  have w12: "list_all2
     (\<lambda>r p. field (table_columns (catalog ?s1) ''banks'') r ''geometry'' = None \<longrightarrow> geometry p = None)
     (berlin_source_data ?s1 ''banks'') (projr (union_query ex_gis ?s1 ''banks''))"
    "geometry (?a1 ! 1) = None \<or> (\<forall>x \<in> set ?a1. layer x = ''banks'' \<longrightarrow> geometry x = None)"
    by blast+
  from null_geometry_rows [of ex_gis ex_unparseable "''long_term_listings''" ?a2 "?a2 ! 2" "''banks''" 2]
    h3 h4
  have w34: "\<exists>np entry. nearest_pois ?u = Some np \<and> json_get np ''banks'' = Some entry
      \<and> json_get entry ''distance'' = Some JNull"
    "\<exists>e. run ex_gis 2 ex_unparseable = (Some e, ex_unparseable)"
    by blast+
  from w12 w34 show ?thesis by blast
qed

end
